theory Spec2Isabelle
  imports Complex_Main "HOL-Library.Word" "HOL-Library.Char_ord" "HOL-Library.List_Lexorder"
begin

section \<open>The face-swap endpoint of scripts/roop_api.py\<close>

text \<open>
  The module is glue code: it resolves two image sources to local files, calls the
  face-swap library, saves the result and answers with a data URI and two timestamps.
  Everything it does besides computing values is an effect on the outside world (the
  file system, the network, the clock, the logger), so the model threads a \<open>world\<close>
  through every function and returns errors as values: a Python function that returns
  \<open>'a\<close> or raises becomes \<open>world \<Rightarrow> (error + 'a) \<times> world\<close>.
  Whatever the module calls but does not define (the HTTP client, the image sniffer,
  base64, PIL, the swap library, the host's registries and private directory) is a field
  of the record \<open>env\<close>.
\<close>

subsection \<open>Request and response schemas\<close>

type_synonym bytes = "8 word list"

record ImageSource =
  image_url :: "string option"
  encoded_image :: "string option"
  image_filepath :: "string option"

record RequestUpscaleOptions =
  scale :: int
  upscaler_name :: string
  upscale_visibility :: real
  face_restorer_name :: string
  restorer_visibility :: real

record RoopOptions =
  task_id :: string
  source_image :: ImageSource
  swap_image :: ImageSource
  face_index :: int
  model :: string
  upscale_options :: RequestUpscaleOptions

record RoopResponse =
  task_id :: string
  encoded_image :: string
  start_time :: string
  finish_time :: string

subsection \<open>Collaborators that the module imports\<close>

text \<open>A PIL image, known to this module only as a value that is opened, passed on and saved.\<close>

datatype Image = Image (raster: bytes)

text \<open>
  Entries of the host's registries \<open>shared.sd_upscalers\<close> and \<open>shared.face_restorers\<close>.
  The module reads only their name; \<open>scaler_ref\<close> and \<open>restorer_ref\<close> stand for the
  identity of the object, so that two entries with one name remain different entries.
\<close>

record UpscalerData =
  name :: string
  scaler_ref :: nat

record FaceRestoration =
  name :: string
  restorer_ref :: nat

text \<open>
  Modelled from the spec: \<open>UpscaleOptions\<close> and \<open>ImageResult\<close> are declared in
  scripts/swapper.py, which is not among the sources. \<open>UpscaleOptions\<close> has the five
  keyword arguments that \<open>upscale_options\<close> passes to its constructor; \<open>ImageResult\<close> is
  what the swap call returns, whose \<open>image()\<close> is "an optional result image".
\<close>

record UpscaleOptions =
  scale :: int
  upscaler :: "UpscalerData option"
  face_restorer :: "FaceRestoration option"
  upscale_visibility :: real
  restorer_visibility :: real

datatype ImageResult = ImageResult (image: "Image option")

text \<open>
  The image types that \<open>imghdr.what\<close> can name, and the name it returns for each
  (the return values that the module's documentation lists).
\<close>

datatype imghdr_type =
  Rgb | Gif | Pbm | Pgm | Ppm | Tiff | Rast | Xbm | Jpeg | Bmp | Png | Webp | Exr

fun type_name :: "imghdr_type \<Rightarrow> string" where
  "type_name Rgb = ''rgb''"
| "type_name Gif = ''gif''"
| "type_name Pbm = ''pbm''"
| "type_name Pgm = ''pgm''"
| "type_name Ppm = ''ppm''"
| "type_name Tiff = ''tiff''"
| "type_name Rast = ''rast''"
| "type_name Xbm = ''xbm''"
| "type_name Jpeg = ''jpeg''"
| "type_name Bmp = ''bmp''"
| "type_name Png = ''png''"
| "type_name Webp = ''webp''"
| "type_name Exr = ''exr''"

text \<open>The caller of the endpoint, as far as the host's \<open>Paths\<close> tells callers apart.\<close>

datatype Request = Request (caller: string)

text \<open>A \<open>requests\<close> response: the status line and the body.\<close>

record Response =
  status_code :: nat
  content :: bytes

text \<open>A reading of \<open>datetime.now(timezone.utc)\<close>, to the second.\<close>

record datetime =
  year :: nat
  month :: nat
  day :: nat
  hour :: nat
  minute :: nat
  second :: nat

subsection \<open>Errors and effects\<close>

text \<open>
  \<open>HTTPException\<close> is the only exception the module raises itself; the others are raised
  by the libraries it calls and pass through it uncaught.
\<close>

datatype error =
    HTTPException nat string
  | RequestException string
  | HTTPError nat
  | OSError string
  | BinasciiError
  | UnidentifiedImageError
  | SwapError string

text \<open>Every call that touches the outside world leaves an event in the world's trace.\<close>

datatype event =
    Mkdir string
  | FileWrite string bytes
  | Rename string string
  | HttpGet string
  | B64Decode string
  | LogWarning string
  | Uuid4
  | ImageOpen string
  | SwapFace string
  | ImageSave string
  | Now

record world =
  files :: "string \<Rightarrow> bytes option"
  dirs :: "string set"
  trace :: "event list"
  ticks :: nat
  uuids :: nat

type_synonym 'a io = "world \<Rightarrow> (error + 'a) \<times> world"

subsection \<open>pathlib and os.path\<close>

text \<open>
  \<open>pathlib.PurePosixPath\<close>: a path is an anchor (empty, \<open>/\<close> or \<open>//\<close>) and a list of
  components. Parsing a string drops empty components and \<open>.\<close>; the operator \<open>/\<close>
  appends the components of its right operand, unless that is absolute, which then
  replaces the path; \<open>str\<close> joins with \<open>/\<close>.
\<close>

datatype Path = Path (anchor: string) (parts: "string list")

fun split_sep :: "char \<Rightarrow> string \<Rightarrow> string list" where
  "split_sep c [] = [[]]"
| "split_sep c (x # xs) =
     (if x = c then [] # split_sep c xs
      else (case split_sep c xs of
              [] \<Rightarrow> [[x]]
            | y # ys \<Rightarrow> (x # y) # ys))"

definition parse_anchor :: "string \<Rightarrow> string" where
  "parse_anchor s =
     (if take 2 s = ''//'' \<and> take 3 s \<noteq> ''///'' then ''//''
      else if take 1 s = ''/'' then ''/''
      else [])"

definition parse_path :: "string \<Rightarrow> Path" where
  "parse_path s = Path (parse_anchor s) (filter (\<lambda>c. c \<noteq> [] \<and> c \<noteq> ''.'') (split_sep CHR ''/'' s))"

definition truediv :: "Path \<Rightarrow> string \<Rightarrow> Path" where
  "truediv p s =
     (let q = parse_path s in
      if anchor q \<noteq> [] then q else Path (anchor p) (parts p @ parts q))"

fun join_sep :: "string list \<Rightarrow> string" where
  "join_sep [] = []"
| "join_sep [c] = c"
| "join_sep (c # d # cs) = c @ ''/'' @ join_sep (d # cs)"

definition str_path :: "Path \<Rightarrow> string" where
  "str_path p = (if anchor p = [] \<and> parts p = [] then ''.'' else anchor p @ join_sep (parts p))"

text \<open>\<open>os.path.join\<close> of two strings (posixpath).\<close>

definition os_path_join :: "string \<Rightarrow> string \<Rightarrow> string" where
  "os_path_join a b =
     (if take 1 b = ''/'' then b
      else if a = [] \<or> last a = CHR ''/'' then a @ b
      else a @ ''/'' @ b)"

text \<open>
  \<open>os.path.splitext\<close> (posixpath): the extension starts at the last dot of the last
  component, provided some character other than a dot precedes that dot in the component.
  \<open>rfind\<close> is \<open>str.rfind\<close> for one character: the last index, or -1.
\<close>

fun rfind_from :: "char \<Rightarrow> string \<Rightarrow> int \<Rightarrow> int \<Rightarrow> int" where
  "rfind_from c [] i found = found"
| "rfind_from c (x # xs) i found = rfind_from c xs (i + 1) (if x = c then i else found)"

definition rfind :: "string \<Rightarrow> char \<Rightarrow> int" where
  "rfind p c = rfind_from c p 0 (-1)"

definition splitext :: "string \<Rightarrow> string \<times> string" where
  "splitext p =
     (let sepIndex = rfind p CHR ''/'';
          dotIndex = rfind p CHR ''.''
      in if dotIndex > sepIndex \<and>
            (\<exists>ch \<in> set (drop (nat (sepIndex + 1)) (take (nat dotIndex) p)). ch \<noteq> CHR ''.'')
         then (take (nat dotIndex) p, drop (nat dotIndex) p)
         else (p, []))"

subsection \<open>The environment\<close>

record env =
  private_outdir :: "Request \<Rightarrow> Path"
  requests_get :: "string \<Rightarrow> error + Response"
  imghdr_tests :: "bytes \<Rightarrow> imghdr_type option"
  b64decode :: "string \<Rightarrow> error + bytes"
  b64encode :: "bytes \<Rightarrow> string"
  uuid4 :: "nat \<Rightarrow> string"
  os_fault :: "event \<Rightarrow> bool"
  sd_upscalers :: "UpscalerData list"
  face_restorers :: "FaceRestoration list"
  pil_decode :: "bytes \<Rightarrow> error + Image"
  png_encode :: "Image \<Rightarrow> bytes"
  swap_face :: "Image \<Rightarrow> Image \<Rightarrow> string \<Rightarrow> int set \<Rightarrow> UpscaleOptions \<Rightarrow> error + ImageResult"
  utc_clock :: "nat \<Rightarrow> datetime"

text \<open>
  \<^item> \<open>private_outdir\<close>: \<open>Paths(gr.Request(request)).private_outdir()\<close>.
  \<^item> \<open>requests_get\<close>: \<open>requests.get(url, stream=True)\<close>, an error when no response arrives.
  \<^item> \<open>imghdr_tests\<close>: the header tests of \<open>imghdr\<close>, from the first bytes of an image
    to its type.
  \<^item> \<open>b64decode\<close>, \<open>b64encode\<close>: the \<open>base64\<close> module, the latter already decoded to text.
  \<^item> \<open>uuid4\<close>: the k-th identifier that \<open>str(uuid.uuid4())\<close> yields.
  \<^item> \<open>os_fault\<close>: the file-system operations that the operating system refuses.
  \<^item> \<open>pil_decode\<close>, \<open>png_encode\<close>: PIL reading an image file and writing a PNG.
  \<^item> \<open>utc_clock\<close>: the k-th reading of the clock.
\<close>

subsection \<open>Primitive effects\<close>

definition log_event :: "event \<Rightarrow> world \<Rightarrow> world" where
  "log_event ev w = w\<lparr>trace := trace w @ [ev]\<rparr>"

text \<open>\<open>os.path.exists\<close>; the empty path never exists.\<close>

definition os_path_exists :: "world \<Rightarrow> string \<Rightarrow> bool" where
  "os_path_exists w p = (p \<noteq> [] \<and> (files w p \<noteq> None \<or> p \<in> dirs w))"

text \<open>\<open>Path.mkdir(parents=True, exist_ok=True)\<close>: the directory and its ancestors.\<close>

definition ancestors :: "Path \<Rightarrow> string list" where
  "ancestors p = map (\<lambda>k. str_path (Path (anchor p) (take k (parts p)))) [0..<Suc (length (parts p))]"

definition mkdir :: "env \<Rightarrow> Path \<Rightarrow> unit io" where
  "mkdir env p w =
     (let ev = Mkdir (str_path p) in
      if os_fault env ev then (Inl (OSError (str_path p)), log_event ev w)
      else (Inr (), log_event ev (w\<lparr>dirs := dirs w \<union> set (ancestors p)\<rparr>)))"

text \<open>\<open>with open(path, 'wb') as f: f.write(data)\<close>.\<close>

definition open_write :: "env \<Rightarrow> string \<Rightarrow> bytes \<Rightarrow> unit io" where
  "open_write env path data w =
     (let ev = FileWrite path data in
      if os_fault env ev then (Inl (OSError path), log_event ev w)
      else (Inr (), log_event ev (w\<lparr>files := (files w)(path \<mapsto> data)\<rparr>)))"

text \<open>\<open>os.rename(src, dst)\<close>.\<close>

definition os_rename :: "env \<Rightarrow> string \<Rightarrow> string \<Rightarrow> unit io" where
  "os_rename env src dst w =
     (let ev = Rename src dst in
      if os_fault env ev \<or> files w src = None then (Inl (OSError src), log_event ev w)
      else (Inr (), log_event ev (w\<lparr>files := ((files w)(src := None))(dst := files w src)\<rparr>)))"

text \<open>\<open>requests.get(url, stream=True)\<close> and \<open>response.raise_for_status()\<close>.\<close>

definition http_get :: "env \<Rightarrow> string \<Rightarrow> Response io" where
  "http_get env url w = (requests_get env url, log_event (HttpGet url) w)"

definition raise_for_status :: "Response \<Rightarrow> error + unit" where
  "raise_for_status response =
     (if 400 \<le> status_code response \<and> status_code response < 600
      then Inl (HTTPError (status_code response)) else Inr ())"

text \<open>
  \<open>imghdr.what(path)\<close> reads the first 32 bytes of the file and runs the header tests
  on them; \<open>imghdr.what(None, h)\<close> runs them on \<open>h\<close> itself.
\<close>

definition imghdr_what :: "env \<Rightarrow> bytes \<Rightarrow> string option" where
  "imghdr_what env h = map_option type_name (imghdr_tests env h)"

definition imghdr_what_file :: "env \<Rightarrow> world \<Rightarrow> string \<Rightarrow> error + string option" where
  "imghdr_what_file env w path =
     (case files w path of
        None \<Rightarrow> Inl (OSError path)
      | Some data \<Rightarrow> Inr (imghdr_what env (take 32 data)))"

definition base64_b64decode :: "env \<Rightarrow> string \<Rightarrow> bytes io" where
  "base64_b64decode env s w = (b64decode env s, log_event (B64Decode s) w)"

definition uuid_uuid4 :: "env \<Rightarrow> world \<Rightarrow> string \<times> world" where
  "uuid_uuid4 env w = (uuid4 env (uuids w), log_event Uuid4 (w\<lparr>uuids := Suc (uuids w)\<rparr>))"

definition datetime_now :: "env \<Rightarrow> world \<Rightarrow> datetime \<times> world" where
  "datetime_now env w = (utc_clock env (ticks w), log_event Now (w\<lparr>ticks := Suc (ticks w)\<rparr>))"

text \<open>\<open>Image.open(path)\<close>.\<close>

definition Image_open :: "env \<Rightarrow> string \<Rightarrow> Image io" where
  "Image_open env path w =
     (case files w path of
        None \<Rightarrow> (Inl (OSError path), log_event (ImageOpen path) w)
      | Some data \<Rightarrow> (pil_decode env data, log_event (ImageOpen path) w))"

text \<open>\<open>image.save(path)\<close> for a path that ends in \<open>.png\<close>.\<close>

definition Image_save :: "env \<Rightarrow> Image \<Rightarrow> string \<Rightarrow> unit io" where
  "Image_save env img path w =
     (let ev = ImageSave path in
      if os_fault env ev then (Inl (OSError path), log_event ev w)
      else (Inr (), log_event ev (w\<lparr>files := (files w)(path \<mapsto> png_encode env img)\<rparr>)))"

text \<open>Python's truth value of an \<open>Optional[str]\<close>: neither \<open>None\<close> nor empty.\<close>

fun truthy :: "string option \<Rightarrow> bool" where
  "truthy None = False"
| "truthy (Some s) = (s \<noteq> [])"

subsection \<open>The functions of the module\<close>

definition download_image :: "env \<Rightarrow> string \<Rightarrow> string \<Rightarrow> string io" where
  "download_image env url output_path w =
     (case http_get env url w of
        (Inl e, w1) \<Rightarrow> (Inl e, w1)
      | (Inr response, w1) \<Rightarrow>
     (case raise_for_status response of
        Inl e \<Rightarrow> (Inl e, w1)
      | Inr _ \<Rightarrow>
     (case open_write env output_path (content response) w1 of
        (Inl e, w2) \<Rightarrow> (Inl e, w2)
      | (Inr _, w2) \<Rightarrow>
     (case imghdr_what_file env w2 output_path of
        Inl e \<Rightarrow> (Inl e, w2)
      | Inr image_type \<Rightarrow>
     (let w3 = (if image_type = None
                then log_event (LogWarning ''Could not determine the image type.'') w2
                else w2);
          (base, ext) = splitext output_path
      in case image_type of
           Some t \<Rightarrow>
             if t \<noteq> [] \<and> drop 1 ext \<noteq> t then
               (let correct_output_path = base @ ''.'' @ t in
                case os_rename env output_path correct_output_path w3 of
                  (Inl e, w4) \<Rightarrow> (Inl e, w4)
                | (Inr _, w4) \<Rightarrow> (Inr correct_output_path, w4))
             else (Inr output_path, w3)
         | None \<Rightarrow> (Inr output_path, w3))))))"

fun upscaler :: "UpscalerData list \<Rightarrow> string \<Rightarrow> UpscalerData option" where
  "upscaler [] upscaler_name' = None"
| "upscaler (upscaler_item # rest) upscaler_name' =
     (if UpscalerData.name upscaler_item = upscaler_name' then Some upscaler_item
      else upscaler rest upscaler_name')"

fun face_restorer :: "FaceRestoration list \<Rightarrow> string \<Rightarrow> FaceRestoration option" where
  "face_restorer [] face_restorer_name' = None"
| "face_restorer (item # rest) face_restorer_name' =
     (if FaceRestoration.name item = face_restorer_name' then Some item
      else face_restorer rest face_restorer_name')"

definition upscale_options :: "env \<Rightarrow> RoopOptions \<Rightarrow> UpscaleOptions" where
  "upscale_options env roop_options =
     (let roop_upscaler =
            upscaler (sd_upscalers env)
              (RequestUpscaleOptions.upscaler_name (RoopOptions.upscale_options roop_options));
          roop_face_restorer =
            face_restorer (face_restorers env)
              (RequestUpscaleOptions.face_restorer_name (RoopOptions.upscale_options roop_options))
      in \<lparr> UpscaleOptions.scale =
             RequestUpscaleOptions.scale (RoopOptions.upscale_options roop_options),
           UpscaleOptions.upscaler = roop_upscaler,
           UpscaleOptions.face_restorer = roop_face_restorer,
           UpscaleOptions.upscale_visibility =
             RequestUpscaleOptions.upscale_visibility (RoopOptions.upscale_options roop_options),
           UpscaleOptions.restorer_visibility =
             RequestUpscaleOptions.restorer_visibility (RoopOptions.upscale_options roop_options) \<rparr>)"

definition get_private_path :: "env \<Rightarrow> Request \<Rightarrow> string \<Rightarrow> string \<Rightarrow> Path io" where
  "get_private_path env request folder filename w =
     (let private_dir = truediv (truediv (private_outdir env request) ''roop'') folder in
      if \<not> os_path_exists w (str_path private_dir) then
        (case mkdir env private_dir w of
           (Inl e, w1) \<Rightarrow> (Inl e, w1)
         | (Inr _, w1) \<Rightarrow> (Inr (truediv private_dir filename), w1))
      else (Inr (truediv private_dir filename), w))"

text \<open>
  The registries are \<open>shared.sd_upscalers\<close> and \<open>shared.face_restorers\<close>; the loops
  over them are recursions over the list, and the primed variables are the parameters
  that the source calls \<open>upscaler_name\<close>, \<open>face_restorer_name\<close> and \<open>image\<close>.
  The next function is the test \<open>if image_source.image_filepath: if os.path.exists(...)\<close>:
  the local path of the source when one is given, is not empty and exists.
\<close>

definition existing_filepath :: "world \<Rightarrow> ImageSource \<Rightarrow> string option" where
  "existing_filepath w image_source =
     (case image_filepath image_source of
        None \<Rightarrow> None
      | Some p \<Rightarrow> if p \<noteq> [] \<and> os_path_exists w p then Some p else None)"

definition download_image_if_needed ::
  "env \<Rightarrow> Request \<Rightarrow> ImageSource \<Rightarrow> string \<Rightarrow> string option \<Rightarrow> string io" where
  "download_image_if_needed env request image_source folder filename w =
     (if image_url image_source = None \<and> ImageSource.encoded_image image_source = None
         \<and> image_filepath image_source = None
      then (Inl (HTTPException 400
                  ''image_url, encoded_image, image_filepath at least one is required''), w)
      else
     (case existing_filepath w image_source of
        Some p \<Rightarrow> (Inr p, w)
      | None \<Rightarrow>
     (let (image_name, w1) = (if truthy filename then (the filename, w) else uuid_uuid4 env w)
      in case get_private_path env request (os_path_join ''source'' folder) image_name w1 of
           (Inl e, w2) \<Rightarrow> (Inl e, w2)
         | (Inr source_image_path, w2) \<Rightarrow>
             if truthy (ImageSource.encoded_image image_source) then
               (case base64_b64decode env (the (ImageSource.encoded_image image_source)) w2 of
                  (Inl e, w3) \<Rightarrow> (Inl e, w3)
                | (Inr decoded_image, w3) \<Rightarrow>
                    (let file_type = imghdr_what env decoded_image;
                         source_image_path' =
                           (case file_type of
                              Some t \<Rightarrow> str_path source_image_path @ ''.'' @ t
                            | None \<Rightarrow> str_path source_image_path)
                     in case open_write env source_image_path' decoded_image w3 of
                          (Inl e, w4) \<Rightarrow> (Inl e, w4)
                        | (Inr _, w4) \<Rightarrow> (Inr source_image_path', w4)))
             else if truthy (image_url image_source) then
               download_image env (the (image_url image_source)) (str_path source_image_path) w2
             else (Inl (HTTPException 400 ''Process image failed''), w2))))"

definition pil_image_to_base64 :: "env \<Rightarrow> Image \<Rightarrow> string" where
  "pil_image_to_base64 env image' =
     (let buffered = png_encode env image';
          img_str = b64encode env buffered
      in ''data:image/png;base64,'' @ img_str)"

text \<open>
  \<open>strftime\<close> for the two formats the handler uses: \<open>%Y-%m-%d\<close> and
  \<open>%Y-%m-%dT%H:%M:%SZ\<close>, every field in decimal, padded with zeros to its width.
\<close>

definition digit_char :: "nat \<Rightarrow> char" where
  "digit_char d = char_of (48 + d mod 10)"

fun zero_pad :: "nat \<Rightarrow> nat \<Rightarrow> string" where
  "zero_pad 0 n = (if n = 0 then [] else zero_pad 0 (n div 10) @ [digit_char n])"
| "zero_pad (Suc k) n = zero_pad k (n div 10) @ [digit_char n]"

text \<open>
  The first equation of \<open>zero_pad\<close> calls itself under a condition; it is not a
  simplification rule.
\<close>

declare zero_pad.simps(1) [simp del]

definition strftime_date :: "datetime \<Rightarrow> string" where
  "strftime_date t = zero_pad 4 (year t) @ ''-'' @ zero_pad 2 (month t) @ ''-'' @ zero_pad 2 (day t)"

definition strftime_iso :: "datetime \<Rightarrow> string" where
  "strftime_iso t =
     strftime_date t @ ''T'' @ zero_pad 2 (hour t) @ '':'' @ zero_pad 2 (minute t) @ '':''
       @ zero_pad 2 (second t) @ ''Z''"

definition call_swap_face ::
  "env \<Rightarrow> Image \<Rightarrow> Image \<Rightarrow> string \<Rightarrow> int set \<Rightarrow> UpscaleOptions \<Rightarrow> ImageResult io" where
  "call_swap_face env face target model_name faces_index opts w =
     (swap_face env face target model_name faces_index opts, log_event (SwapFace model_name) w)"

text \<open>
  In the handler the primed variables are the locals \<open>start_time\<close>, \<open>finish_time\<close>,
  \<open>task_id\<close> and \<open>swap_image\<close> of the source, whose plain names are fields of the
  schemas here.
\<close>

definition run_roop_on_single_image :: "env \<Rightarrow> Request \<Rightarrow> RoopOptions \<Rightarrow> RoopResponse io" where
  "run_roop_on_single_image env request roop_options w =
     (let (start_time', w1) = datetime_now env w;
          utc_date_str = strftime_date start_time';
          task_id' = RoopOptions.task_id roop_options
      in
      case download_image_if_needed env request (source_image roop_options)
             (''face/'' @ utc_date_str) (Some task_id') w1 of
        (Inl e, w2) \<Rightarrow> (Inl e, w2)
      | (Inr face_image, w2) \<Rightarrow>
     (case download_image_if_needed env request (RoopOptions.swap_image roop_options)
             (''swap/'' @ utc_date_str) (Some task_id') w2 of
        (Inl e, w3) \<Rightarrow> (Inl e, w3)
      | (Inr swap_image', w3) \<Rightarrow>
     (case Image_open env face_image w3 of
        (Inl e, w4) \<Rightarrow> (Inl e, w4)
      | (Inr face, w4) \<Rightarrow>
     (case Image_open env swap_image' w4 of
        (Inl e, w5) \<Rightarrow> (Inl e, w5)
      | (Inr target, w5) \<Rightarrow>
     (case call_swap_face env face target (model roop_options) {face_index roop_options}
             (upscale_options env roop_options) w5 of
        (Inl e, w6) \<Rightarrow> (Inl e, w6)
      | (Inr result, w6) \<Rightarrow>
     (case image result of
        None \<Rightarrow> (Inl (HTTPException 400 ''Roop process image failed''), w6)
      | Some result_image \<Rightarrow>
     (case get_private_path env request (''output/'' @ utc_date_str) (task_id' @ ''.png'') w6 of
        (Inl e, w7) \<Rightarrow> (Inl e, w7)
      | (Inr output_filepath, w7) \<Rightarrow>
     (case Image_save env result_image (str_path output_filepath) w7 of
        (Inl e, w8) \<Rightarrow> (Inl e, w8)
      | (Inr _, w8) \<Rightarrow>
     (let (finish_time', w9) = datetime_now env w8
      in (Inr \<lparr> RoopResponse.task_id = task_id',
                RoopResponse.encoded_image = pil_image_to_base64 env result_image,
                RoopResponse.start_time = strftime_iso start_time',
                RoopResponse.finish_time = strftime_iso finish_time' \<rparr>, w9))))))))))"

subsection \<open>Vocabulary of the properties\<close>

text \<open>The events that happened between the world \<open>w\<close> and a later world \<open>w'\<close>.\<close>

definition effects :: "world \<Rightarrow> world \<Rightarrow> event list" where
  "effects w w' = drop (length (trace w)) (trace w')"

text \<open>The first test of the resolver: none of the three fields is given.\<close>

definition all_absent :: "ImageSource \<Rightarrow> bool" where
  "all_absent image_source \<longleftrightarrow>
     image_url image_source = None \<and> ImageSource.encoded_image image_source = None
       \<and> image_filepath image_source = None"

text \<open>The directory \<open>private_dir\<close> that \<open>get_private_path\<close> computes for a folder.\<close>

definition private_dir_of :: "env \<Rightarrow> Request \<Rightarrow> string \<Rightarrow> Path" where
  "private_dir_of env request folder =
     truediv (truediv (private_outdir env request) ''roop'') folder"

text \<open>
  Between \<open>w\<close> and \<open>w'\<close> the trace only grew, and by events that all satisfy \<open>P\<close>.
\<close>

definition only_events :: "(event \<Rightarrow> bool) \<Rightarrow> world \<Rightarrow> world \<Rightarrow> bool" where
  "only_events P w w' \<longleftrightarrow> (\<exists>es. trace w' = trace w @ es \<and> (\<forall>e \<in> set es. P e))"

text \<open>
  The destination that the resolver computes before it looks at the payload or the URL:
  the private path of the image name under \<open>source/<folder>\<close>.
\<close>

definition resolver_dest :: "env \<Rightarrow> Request \<Rightarrow> string \<Rightarrow> string option \<Rightarrow> world \<Rightarrow> string" where
  "resolver_dest env request folder filename w =
     str_path (truediv (private_dir_of env request (os_path_join ''source'' folder))
                 (if truthy filename then the filename else uuid4 env (uuids w)))"

text \<open>The events that the resolver can cause, as opposed to those of the handler alone.\<close>

fun resolver_event :: "event \<Rightarrow> bool" where
  "resolver_event (ImageOpen p) = False"
| "resolver_event (SwapFace m) = False"
| "resolver_event (ImageSave p) = False"
| "resolver_event Now = False"
| "resolver_event e = True"

text \<open>
  The shape \<open>YYYY-MM-DDTHH:MM:SSZ\<close>: a pattern matches a string of the same length
  whose characters are those of the pattern, with a decimal digit wherever the pattern
  has \<open>d\<close>.
\<close>

definition is_digit :: "char \<Rightarrow> bool" where
  "is_digit c \<longleftrightarrow> 48 \<le> (of_char c :: nat) \<and> (of_char c :: nat) \<le> 57"

fun matches :: "string \<Rightarrow> string \<Rightarrow> bool" where
  "matches [] [] = True"
| "matches (p # ps) (c # cs) = ((if p = CHR ''d'' then is_digit c else c = p) \<and> matches ps cs)"
| "matches _ _ = False"

definition iso_format :: "string \<Rightarrow> bool" where
  "iso_format s = matches ''dddd-dd-ddTdd:dd:ddZ'' s"

text \<open>
  The readings that \<open>datetime.now\<close> can return in practice: the fields of a Python
  \<open>datetime\<close>, with a year of four digits (\<open>strftime\<close> pads a shorter year on some
  platforms only). Readings are compared field by field, the year first.
\<close>

definition valid_datetime :: "datetime \<Rightarrow> bool" where
  "valid_datetime t \<longleftrightarrow>
     1000 \<le> year t \<and> year t \<le> 9999 \<and> 1 \<le> month t \<and> month t \<le> 12 \<and> 1 \<le> day t \<and> day t \<le> 31
     \<and> hour t \<le> 23 \<and> minute t \<le> 59 \<and> second t \<le> 59"

definition datetime_le :: "datetime \<Rightarrow> datetime \<Rightarrow> bool" where
  "datetime_le a b \<longleftrightarrow>
     [year a, month a, day a, hour a, minute a, second a]
       \<le> [year b, month b, day b, hour b, minute b, second b]"

text \<open>
  The paths at which an event leaves a file: the path written, the target of a renaming,
  the path an image is saved at.
\<close>

fun written :: "event \<Rightarrow> string list" where
  "written (FileWrite p b) = [p]"
| "written (Rename p q) = [q]"
| "written (ImageSave p) = [p]"
| "written e = []"

definition written_paths :: "event list \<Rightarrow> string list" where
  "written_paths es = concat (map written es)"

text \<open>The file paths that one run of the handler writes, starting in the world \<open>w\<close>.\<close>

definition request_writes :: "env \<Rightarrow> Request \<Rightarrow> RoopOptions \<Rightarrow> world \<Rightarrow> string list" where
  "request_writes env request roop_options w =
     written_paths (effects w (snd (run_roop_on_single_image env request roop_options w)))"

text \<open>
  The last component of a path, the directory before it, and the part of a file name
  before its first dot. A plain name is not empty and has neither a slash nor a dot.
\<close>

definition file_name :: "string \<Rightarrow> string" where
  "file_name p = rev (takeWhile (\<lambda>c. c \<noteq> CHR ''/'') (rev p))"

definition stem :: "string \<Rightarrow> string" where
  "stem n = takeWhile (\<lambda>c. c \<noteq> CHR ''.'') n"

definition plain_name :: "string \<Rightarrow> bool" where
  "plain_name s \<longleftrightarrow> s \<noteq> [] \<and> CHR ''/'' \<notin> set s \<and> CHR ''.'' \<notin> set s"

definition dir_name :: "string \<Rightarrow> string" where
  "dir_name p = rev (drop 1 (dropWhile (\<lambda>c. c \<noteq> CHR ''/'') (rev p)))"

text \<open>
  The three directories of a request that starts in the world \<open>w\<close>: those of the face
  image, of the swap image and of the output, under the date of the first clock reading.
\<close>

definition request_folders :: "env \<Rightarrow> Request \<Rightarrow> world \<Rightarrow> string list" where
  "request_folders env request w =
     (let utc_date_str = strftime_date (utc_clock env (ticks w)) in
      [str_path (private_dir_of env request (os_path_join ''source'' (''face/'' @ utc_date_str))),
       str_path (private_dir_of env request (os_path_join ''source'' (''swap/'' @ utc_date_str))),
       str_path (private_dir_of env request (''output/'' @ utc_date_str))])"

text \<open>
  An event is keyed by a task id within some folders when every path it writes has the
  task id as the stem of its file name and one of the folders as its directory.
\<close>

definition keyed :: "string \<Rightarrow> string list \<Rightarrow> event \<Rightarrow> bool" where
  "keyed tid folders e \<longleftrightarrow>
     (\<forall>p \<in> set (written e). stem (file_name p) = tid \<and> dir_name p \<in> set folders)"

subsection \<open>A concrete environment\<close>

text \<open>
  An environment and a world to run the functions on: one URL answers with the first
  bytes of a PNG, another with 404; the sniffer knows PNG and GIF headers; two base64
  strings decode; the file system refuses nothing; the world holds one file.
\<close>

definition png_head :: bytes where
  "png_head = [137, 80, 78, 71]"

definition demo_env :: env where
  "demo_env =
     \<lparr> private_outdir = (\<lambda>r. Path ''/'' [''data'', caller r]),
       requests_get = (\<lambda>u. if u = ''http://h/a.png'' then Inr \<lparr>status_code = 200, content = png_head\<rparr>
                            else if u = ''http://h/raw'' then Inr \<lparr>status_code = 200, content = [1, 2]\<rparr>
                            else if u = ''http://h/gone'' then Inr \<lparr>status_code = 404, content = []\<rparr>
                            else Inl (RequestException u)),
       imghdr_tests = (\<lambda>h. if take 4 h = png_head then Some Png
                            else if take 3 h = [71, 73, 70] then Some Gif else None),
       b64decode = (\<lambda>s. if s = ''iVBORw=='' then Inr png_head
                         else if s = ''AQI='' then Inr [1, 2] else Inl BinasciiError),
       b64encode = (\<lambda>b. if b = png_head then ''iVBORw=='' else ''AQI=''),
       uuid4 = (\<lambda>k. ''6f1c2d3e-0000-4000-8000-00000000000'' @ [digit_char k]),
       os_fault = (\<lambda>ev. False),
       sd_upscalers = [\<lparr>UpscalerData.name = ''None'', scaler_ref = 0\<rparr>,
                       \<lparr>UpscalerData.name = ''Lanczos'', scaler_ref = 1\<rparr>,
                       \<lparr>UpscalerData.name = ''Lanczos'', scaler_ref = 2\<rparr>],
       face_restorers = [\<lparr>FaceRestoration.name = ''CodeFormer'', restorer_ref = 0\<rparr>,
                         \<lparr>FaceRestoration.name = ''GFPGAN'', restorer_ref = 1\<rparr>],
       pil_decode = (\<lambda>b. if take 4 b = png_head then Inr (Image b) else Inl UnidentifiedImageError),
       png_encode = raster,
       swap_face = (\<lambda>face target model_name faces_index opts.
                      if model_name = ''roop/inswapper_128.onnx'' then Inr (ImageResult (Some target))
                      else Inr (ImageResult None)),
       utc_clock = (\<lambda>k. \<lparr>year = 2024, month = 1, day = 2, hour = 3, minute = 4, second = 5 + k\<rparr>) \<rparr>"

definition demo_world :: world where
  "demo_world =
     \<lparr> files = [''/in/face.png'' \<mapsto> png_head], dirs = {''/in''}, trace = [], ticks = 0, uuids = 0 \<rparr>"

text \<open>A request for that environment: an inline face image and a swap image to download.\<close>

definition demo_options :: RoopOptions where
  "demo_options =
     \<lparr> RoopOptions.task_id = ''t1'',
       source_image = \<lparr>image_url = None, encoded_image = Some ''iVBORw=='', image_filepath = None\<rparr>,
       swap_image = \<lparr>image_url = Some ''http://h/a.png'', encoded_image = None, image_filepath = None\<rparr>,
       face_index = 0,
       model = ''roop/inswapper_128.onnx'',
       upscale_options =
         \<lparr> RequestUpscaleOptions.scale = 1, upscaler_name = [],
           RequestUpscaleOptions.upscale_visibility = 1, face_restorer_name = ''CodeFormer'',
           RequestUpscaleOptions.restorer_visibility = 1 \<rparr> \<rparr>"

text \<open>
  Two more requests: one named \<open>a\<close> with an inline PNG as its face image, one named
  \<open>a.png\<close> that downloads a PNG as its face image.
\<close>

definition request_a :: RoopOptions where
  "request_a = demo_options\<lparr>RoopOptions.task_id := ''a''\<rparr>"

definition request_a_png :: RoopOptions where
  "request_a_png =
     demo_options\<lparr>RoopOptions.task_id := ''a.png'',
                  source_image := \<lparr>image_url = Some ''http://h/a.png'', encoded_image = None,
                                     image_filepath = None\<rparr>\<rparr>"

text \<open>
  The same environment with a clock that is set back by one second between two readings,
  as a wall clock can be.
\<close>

definition stepped_back_env :: env where
  "stepped_back_env =
     demo_env\<lparr>utc_clock :=
       (\<lambda>k. \<lparr>year = 2024, month = 1, day = 2, hour = 3, minute = 4, second = 5 - k\<rparr>)\<rparr>"



section \<open>Properties\<close>

subsection \<open>The effects of each step\<close>

lemma trace_log_event [simp]: "trace (log_event ev w) = trace w @ [ev]"
  by (simp add: log_event_def)

lemma files_log_event [simp]: "files (log_event ev w) = files w"
  by (simp add: log_event_def)

lemma dirs_log_event [simp]: "dirs (log_event ev w) = dirs w"
  by (simp add: log_event_def)

lemma effects_refl [simp]: "effects w w = []"
  by (simp add: effects_def)

lemma effects_append: "trace w' = trace w @ es \<Longrightarrow> effects w w' = es"
  by (simp add: effects_def)

lemma get_private_path_trace:
  "get_private_path env request folder filename w = (r, w') \<Longrightarrow>
   trace w' = trace w @ (if os_path_exists w (str_path (private_dir_of env request folder)) then []
                         else [Mkdir (str_path (private_dir_of env request folder))])"
  by (auto simp: get_private_path_def private_dir_of_def mkdir_def Let_def split: if_splits prod.splits sum.splits)

lemma get_private_path_result:
  "get_private_path env request folder filename w = (Inr dest, w') \<Longrightarrow>
   dest = truediv (private_dir_of env request folder) filename"
  by (auto simp: get_private_path_def private_dir_of_def mkdir_def Let_def split: if_splits prod.splits sum.splits)

lemma download_image_trace:
  "download_image env url output_path w = (r, w') \<Longrightarrow>
   \<exists>evs. trace w' = trace w @ HttpGet url # evs \<and> (\<forall>u. HttpGet u \<notin> set evs) \<and> (\<forall>s. B64Decode s \<notin> set evs)"
  by (auto simp: download_image_def http_get_def open_write_def os_rename_def Let_def
        split: if_splits prod.splits sum.splits option.splits)

lemma image_name_trace:
  "(if truthy filename then (the filename, w) else uuid_uuid4 env w) = (image_name, w1) \<Longrightarrow>
   trace w1 = trace w @ (if truthy filename then [] else [Uuid4])"
  by (auto simp: uuid_uuid4_def split: if_splits)


lemma resolver_absent:
  "all_absent image_source \<Longrightarrow>
   download_image_if_needed env request image_source folder filename w =
   (Inl (HTTPException 400 ''image_url, encoded_image, image_filepath at least one is required''), w)"
  by (simp add: download_image_if_needed_def all_absent_def)

lemma resolver_existing:
  "existing_filepath w image_source = Some p \<Longrightarrow>
   download_image_if_needed env request image_source folder filename w = (Inr p, w)"
  by (auto simp: download_image_if_needed_def existing_filepath_def split: option.splits)

lemma resolver_mkdir_failed:
  "\<not> all_absent image_source \<Longrightarrow> existing_filepath w image_source = None \<Longrightarrow>
   (if truthy filename then (the filename, w) else uuid_uuid4 env w) = (image_name, w1) \<Longrightarrow>
   get_private_path env request (os_path_join ''source'' folder) image_name w1 = (Inl e, w2) \<Longrightarrow>
   download_image_if_needed env request image_source folder filename w = (Inl e, w2)"
  by (auto simp: download_image_if_needed_def all_absent_def)

lemma resolver_encoded:
  "existing_filepath w image_source = None \<Longrightarrow>
   ImageSource.encoded_image image_source = Some payload \<Longrightarrow> payload \<noteq> [] \<Longrightarrow>
   (if truthy filename then (the filename, w) else uuid_uuid4 env w) = (image_name, w1) \<Longrightarrow>
   get_private_path env request (os_path_join ''source'' folder) image_name w1 = (Inr dest, w2) \<Longrightarrow>
   download_image_if_needed env request image_source folder filename w =
     (case b64decode env payload of
        Inl e \<Rightarrow> (Inl e, log_event (B64Decode payload) w2)
      | Inr data \<Rightarrow>
          (let path = (case imghdr_what env data of
                         Some t \<Rightarrow> str_path dest @ ''.'' @ t
                       | None \<Rightarrow> str_path dest)
           in case open_write env path data (log_event (B64Decode payload) w2) of
                (Inl e, w4) \<Rightarrow> (Inl e, w4)
              | (Inr _, w4) \<Rightarrow> (Inr path, w4)))"
  by (simp add: download_image_if_needed_def base64_b64decode_def Let_def split: sum.splits)

lemma resolver_url:
  "existing_filepath w image_source = None \<Longrightarrow>
   \<not> truthy (ImageSource.encoded_image image_source) \<Longrightarrow>
   image_url image_source = Some url \<Longrightarrow> url \<noteq> [] \<Longrightarrow>
   (if truthy filename then (the filename, w) else uuid_uuid4 env w) = (image_name, w1) \<Longrightarrow>
   get_private_path env request (os_path_join ''source'' folder) image_name w1 = (Inr dest, w2) \<Longrightarrow>
   download_image_if_needed env request image_source folder filename w =
     download_image env url (str_path dest) w2"
  by (simp add: download_image_if_needed_def)

lemma resolver_unusable:
  "\<not> all_absent image_source \<Longrightarrow> existing_filepath w image_source = None \<Longrightarrow>
   \<not> truthy (ImageSource.encoded_image image_source) \<Longrightarrow> \<not> truthy (image_url image_source) \<Longrightarrow>
   (if truthy filename then (the filename, w) else uuid_uuid4 env w) = (image_name, w1) \<Longrightarrow>
   get_private_path env request (os_path_join ''source'' folder) image_name w1 = (Inr dest, w2) \<Longrightarrow>
   download_image_if_needed env request image_source folder filename w =
     (Inl (HTTPException 400 ''Process image failed''), w2)"
  by (simp add: download_image_if_needed_def all_absent_def)


lemma existing_filepath_None_iff:
  "existing_filepath w image_source = None \<longleftrightarrow>
   \<not> (\<exists>p. image_filepath image_source = Some p \<and> os_path_exists w p)"
  by (auto simp: existing_filepath_def os_path_exists_def split: option.splits)

lemma existing_filepath_Some:
  "image_filepath image_source = Some p \<Longrightarrow> os_path_exists w p \<Longrightarrow>
   existing_filepath w image_source = Some p"
  by (auto simp: existing_filepath_def os_path_exists_def)

lemma get_private_path_failed:
  "get_private_path env request folder filename w = (Inl e, w') \<Longrightarrow>
   \<exists>d. e = OSError d \<and> os_fault env (Mkdir d)"
  by (auto simp: get_private_path_def mkdir_def Let_def split: if_splits prod.splits sum.splits)

lemma image_name_cases:
  obtains image_name w1 where
    "(if truthy filename then (the filename, w) else uuid_uuid4 env w) = (image_name, w1)"
    "trace w1 = trace w @ (if truthy filename then [] else [Uuid4])"
  by (cases "(if truthy filename then (the filename, w) else uuid_uuid4 env w)")
     (auto simp: uuid_uuid4_def split: if_splits)

lemma truthy_Some: "truthy x \<Longrightarrow> \<exists>s. x = Some s \<and> s \<noteq> []"
  by (cases x) auto

lemma resolver_no_download_when_encoded:
  assumes ex: "existing_filepath w image_source = None"
    and enc: "ImageSource.encoded_image image_source = Some payload" "payload \<noteq> []"
    and res: "download_image_if_needed env request image_source folder filename w = (r, w')"
  shows "(\<forall>u. HttpGet u \<notin> set (effects w w')) \<and>
         (B64Decode payload \<in> set (effects w w') \<or> (\<exists>d. r = Inl (OSError d) \<and> os_fault env (Mkdir d)))"
proof -
  obtain image_name w1 where
    n: "(if truthy filename then (the filename, w) else uuid_uuid4 env w) = (image_name, w1)"
    and t1: "trace w1 = trace w @ (if truthy filename then [] else [Uuid4])"
    by (rule image_name_cases)
  obtain r2 w2 where
    g: "get_private_path env request (os_path_join ''source'' folder) image_name w1 = (r2, w2)"
    by (cases "get_private_path env request (os_path_join ''source'' folder) image_name w1")
  note t2 = get_private_path_trace [OF g]
  have na: "\<not> all_absent image_source" using enc by (simp add: all_absent_def)
  show ?thesis
  proof (cases r2)
    case (Inl e)
    with resolver_mkdir_failed [OF na ex n] g res have "r = Inl e" "w' = w2" by auto
    moreover from get_private_path_failed g Inl obtain d where "e = OSError d" "os_fault env (Mkdir d)"
      by blast
    ultimately show ?thesis using t1 t2
      by (auto simp: effects_def split: if_splits)
  next
    case (Inr dest)
    with resolver_encoded [OF ex enc n] g res
    have "(r, w') = (case b64decode env payload of
        Inl e \<Rightarrow> (Inl e, log_event (B64Decode payload) w2)
      | Inr data \<Rightarrow>
          (let path = (case imghdr_what env data of
                         Some t \<Rightarrow> str_path dest @ ''.'' @ t
                       | None \<Rightarrow> str_path dest)
           in case open_write env path data (log_event (B64Decode payload) w2) of
                (Inl e, w4) \<Rightarrow> (Inl e, w4)
              | (Inr _, w4) \<Rightarrow> (Inr path, w4)))" by simp
    then have "\<exists>evs. trace w' = trace w2 @ B64Decode payload # evs \<and> (\<forall>u. HttpGet u \<notin> set evs)"
      by (auto simp: open_write_def Let_def split: sum.splits if_splits)
    then show ?thesis using t1 t2
      by (auto simp: effects_def split: if_splits)
  qed
qed

lemma resolver_download_only_when:
  assumes res: "download_image_if_needed env request image_source folder filename w = (r, w')"
    and get: "HttpGet u \<in> set (effects w w')"
  shows "existing_filepath w image_source = None \<and> \<not> truthy (ImageSource.encoded_image image_source)
          \<and> image_url image_source = Some u"
proof -
  have na: "\<not> all_absent image_source"
    using resolver_absent [of image_source env request folder filename w] res get by auto
  have ex: "existing_filepath w image_source = None"
  proof (cases "existing_filepath w image_source")
    case (Some p)
    with resolver_existing [OF Some] res get show ?thesis by auto
  qed simp
  have ne: "\<not> truthy (ImageSource.encoded_image image_source)"
  proof
    assume "truthy (ImageSource.encoded_image image_source)"
    then obtain payload where "ImageSource.encoded_image image_source = Some payload" "payload \<noteq> []"
      using truthy_Some by blast
    from resolver_no_download_when_encoded [OF ex this res] get show False by blast
  qed
  obtain image_name w1 where
    n: "(if truthy filename then (the filename, w) else uuid_uuid4 env w) = (image_name, w1)"
    and t1: "trace w1 = trace w @ (if truthy filename then [] else [Uuid4])"
    by (rule image_name_cases)
  obtain r2 w2 where
    g: "get_private_path env request (os_path_join ''source'' folder) image_name w1 = (r2, w2)"
    by (cases "get_private_path env request (os_path_join ''source'' folder) image_name w1")
  note t2 = get_private_path_trace [OF g]
  have "image_url image_source = Some u"
  proof (cases r2)
    case (Inl e)
    with resolver_mkdir_failed [OF na ex n] g res have "w' = w2" by auto
    with get t1 t2 show ?thesis by (auto simp: effects_def split: if_splits)
  next
    case (Inr dest)
    show ?thesis
    proof (cases "truthy (image_url image_source)")
      case True
      then obtain url where url: "image_url image_source = Some url" "url \<noteq> []"
        using truthy_Some by blast
      from resolver_url [OF ex ne url n] g Inr res
      have "download_image env url (str_path dest) w2 = (r, w')" by simp
      from download_image_trace [OF this] obtain evs where
        "trace w' = trace w2 @ HttpGet url # evs" "\<forall>u. HttpGet u \<notin> set evs" by blast
      with get t1 t2 url show ?thesis by (auto simp: effects_def split: if_splits)
    next
      case False
      from resolver_unusable [OF na ex ne False n] g Inr res have "w' = w2" by simp
      with get t1 t2 show ?thesis by (auto simp: effects_def split: if_splits)
    qed
  qed
  with ex ne show ?thesis by simp
qed


lemma resolver_downloads_url:
  assumes ex: "existing_filepath w image_source = None"
    and ne: "\<not> truthy (ImageSource.encoded_image image_source)"
    and url: "image_url image_source = Some url" "url \<noteq> []"
    and res: "download_image_if_needed env request image_source folder filename w = (r, w')"
  shows "HttpGet url \<in> set (effects w w') \<or> (\<exists>d. r = Inl (OSError d) \<and> os_fault env (Mkdir d))"
proof -
  obtain image_name w1 where
    n: "(if truthy filename then (the filename, w) else uuid_uuid4 env w) = (image_name, w1)"
    and t1: "trace w1 = trace w @ (if truthy filename then [] else [Uuid4])"
    by (rule image_name_cases)
  obtain r2 w2 where
    g: "get_private_path env request (os_path_join ''source'' folder) image_name w1 = (r2, w2)"
    by (cases "get_private_path env request (os_path_join ''source'' folder) image_name w1")
  note t2 = get_private_path_trace [OF g]
  have na: "\<not> all_absent image_source" using url by (simp add: all_absent_def)
  show ?thesis
  proof (cases r2)
    case (Inl e)
    with resolver_mkdir_failed [OF na ex n] g res have "r = Inl e" by auto
    with get_private_path_failed g Inl show ?thesis by blast
  next
    case (Inr dest)
    from resolver_url [OF ex ne url n] g Inr res
    have "download_image env url (str_path dest) w2 = (r, w')" by simp
    from download_image_trace [OF this] obtain evs where
      "trace w' = trace w2 @ HttpGet url # evs" by blast
    with t1 t2 show ?thesis by (auto simp: effects_def split: if_splits)
  qed
qed

lemma get_private_path_ok:
  "\<not> os_fault env (Mkdir (str_path (private_dir_of env request folder))) \<Longrightarrow>
   \<exists>w2. get_private_path env request folder filename w
           = (Inr (truediv (private_dir_of env request folder) filename), w2)
         \<and> files w2 = files w"
  by (simp add: get_private_path_def private_dir_of_def mkdir_def Let_def)

lemma image_name_value:
  "(if truthy filename then (the filename, w) else uuid_uuid4 env w) = (image_name, w1) \<Longrightarrow>
   image_name = (if truthy filename then the filename else uuid4 env (uuids w)) \<and> files w1 = files w"
  by (auto simp: uuid_uuid4_def log_event_def split: if_splits)

lemma field_empty: "x \<in> {None, Some []} \<Longrightarrow> \<not> truthy x"
  by auto

lemma type_name_nonempty: "type_name t \<noteq> []"
  by (cases t) simp_all

lemma splitext_append: "splitext p = (base, ext) \<Longrightarrow> p = base @ ext"
  by (auto simp: splitext_def Let_def split: if_splits)

lemma only_events_refl [simp]: "only_events P w w"
  by (simp add: only_events_def)

lemma only_events_trans:
  "only_events P w w1 \<Longrightarrow> only_events P w1 w2 \<Longrightarrow> only_events P w w2"
  by (auto simp: only_events_def)

lemma only_events_log:
  "only_events P w w1 \<Longrightarrow> P ev \<Longrightarrow> trace w2 = trace w1 @ [ev] \<Longrightarrow> only_events P w w2"
  by (auto simp: only_events_def)

lemma only_events_same:
  "only_events P w w1 \<Longrightarrow> trace w2 = trace w1 \<Longrightarrow> only_events P w w2"
  by (auto simp: only_events_def)

lemma only_events_effects:
  "only_events P w w' \<Longrightarrow> \<forall>e \<in> set (effects w w'). P e"
  by (auto simp: only_events_def effects_def)

lemma only_events_mono:
  "only_events P w w' \<Longrightarrow> (\<And>e. P e \<Longrightarrow> Q e) \<Longrightarrow> only_events Q w w'"
  by (auto simp: only_events_def)

lemma get_private_path_events:
  assumes "get_private_path env request folder filename w = (r, w')"
    and "\<And>d. P (Mkdir d)"
  shows "only_events P w w'"
  using get_private_path_trace [OF assms(1)] assms(2)
  by (auto simp: only_events_def)

lemma image_name_events:
  assumes "(if truthy filename then (the filename, w) else uuid_uuid4 env w) = (image_name, w1)"
    and "P Uuid4"
  shows "only_events P w w1"
  using image_name_trace [OF assms(1)] assms(2)
  by (auto simp: only_events_def)

lemma download_image_events:
  assumes res: "download_image env url output_path w = (r, w')"
    and "P (HttpGet url)"
    and "\<And>b. P (FileWrite output_path b)"
    and "\<And>s. P (LogWarning s)"
    and "\<And>t. P (Rename output_path (fst (splitext output_path) @ ''.'' @ type_name t))"
  shows "only_events P w w'"
  using assms
  by (auto simp: download_image_def http_get_def open_write_def os_rename_def imghdr_what_file_def
        imghdr_what_def Let_def only_events_def
        split: if_splits prod.splits sum.splits option.splits)


lemma resolver_events:
  assumes res: "download_image_if_needed env request image_source folder filename w = (r, w')"
    and dest: "dest = resolver_dest env request folder filename w"
    and uu: "P Uuid4"
    and mk: "\<And>d. P (Mkdir d)"
    and de: "\<And>s. P (B64Decode s)"
    and ge: "\<And>u. P (HttpGet u)"
    and lo: "\<And>s. P (LogWarning s)"
    and wr: "\<And>b. P (FileWrite dest b)"
    and wt: "\<And>t b. P (FileWrite (dest @ ''.'' @ type_name t) b)"
    and rn: "\<And>t. P (Rename dest (fst (splitext dest) @ ''.'' @ type_name t))"
  shows "only_events P w w'"
proof (cases "all_absent image_source")
  case True
  from resolver_absent [OF True] res show ?thesis by simp
next
  case na: False
  show ?thesis
  proof (cases "existing_filepath w image_source")
    case (Some p)
    from resolver_existing [OF Some] res show ?thesis by simp
  next
    case ex: None
    obtain n w1 where
      n: "(if truthy filename then (the filename, w) else uuid_uuid4 env w) = (n, w1)"
      by (rule prod.exhaust)
    note e1 = image_name_events [OF n, of P, OF uu]
    obtain r2 w2 where
      g: "get_private_path env request (os_path_join ''source'' folder) n w1 = (r2, w2)"
      by (rule prod.exhaust)
    note e2 = only_events_trans [OF e1 get_private_path_events [OF g, of P, OF mk]]
    show ?thesis
    proof (cases r2)
      case (Inl e)
      with resolver_mkdir_failed [OF na ex n] g res have "w' = w2" by simp
      with e2 show ?thesis by simp
    next
      case (Inr d)
      from get_private_path_result g Inr image_name_value [OF n] dest
      have d: "str_path d = dest" by (auto simp: resolver_dest_def)
      show ?thesis
      proof (cases "truthy (ImageSource.encoded_image image_source)")
        case True
        then obtain payload where enc: "ImageSource.encoded_image image_source = Some payload"
          and ne: "payload \<noteq> []" using truthy_Some by blast
        from resolver_encoded [OF ex enc ne n] g Inr res d
        have "\<exists>es. trace w' = trace w2 @ es \<and> (\<forall>e \<in> set es. P e)"
          using de wr wt
          by (auto simp: open_write_def imghdr_what_def Let_def
                split: sum.splits option.splits if_splits)
        then have "only_events P w2 w'" by (simp add: only_events_def)
        with e2 show ?thesis by (rule only_events_trans)
      next
        case ne: False
        show ?thesis
        proof (cases "truthy (image_url image_source)")
          case True
          then obtain url where url: "image_url image_source = Some url" "url \<noteq> []"
            using truthy_Some by blast
          from resolver_url [OF ex ne url n] g Inr res d
          have "download_image env url dest w2 = (r, w')" by simp
          from download_image_events [OF this, of P] ge wr lo rn
          have "only_events P w2 w'" by blast
          with e2 show ?thesis by (rule only_events_trans)
        next
          case False
          from resolver_unusable [OF na ex ne False n] g Inr res have "w' = w2" by simp
          with e2 show ?thesis by simp
        qed
      qed
    qed
  qed
qed


lemma resolver_only_resolver_events:
  "download_image_if_needed env request image_source folder filename w = (r, w') \<Longrightarrow>
   only_events resolver_event w w'"
  by (rule resolver_events [where P = resolver_event, OF _ refl]) simp_all

lemma datetime_now_trace:
  "datetime_now env w = (t, w1) \<Longrightarrow> trace w1 = trace w @ [Now] \<and> t = utc_clock env (ticks w)"
  by (auto simp: datetime_now_def)

lemma Image_open_trace:
  "Image_open env path w = (r, w') \<Longrightarrow> trace w' = trace w @ [ImageOpen path]"
  by (auto simp: Image_open_def split: option.splits)

lemma call_swap_face_trace:
  "call_swap_face env face target m idx opts w = (r, w') \<Longrightarrow>
   trace w' = trace w @ [SwapFace m] \<and> r = swap_face env face target m idx opts"
  by (auto simp: call_swap_face_def)

subsection \<open>The image source resolver\<close>

text \<open>
  C1. The precedence of the three sources. Whatever the resolver returns:
  \<^item> if \<open>image_filepath\<close> is set and that file exists, the result is that very path and
    the world is unchanged: no directory was created, no file written, nothing decoded,
    nothing downloaded;
  \<^item> otherwise, if \<open>encoded_image\<close> is set and not empty, the payload is decoded and no
    URL is requested, whatever \<open>image_url\<close> holds; the one way past the decoding is
    that creating the destination directory failed, which ends the call before;
  \<^item> a URL is requested only when neither of the two applies, and then it is the
    \<open>image_url\<close> of the source;
  \<^item> and when neither applies and \<open>image_url\<close> is set and not empty, it is requested
    (again unless creating the directory failed).
\<close>

theorem source_precedence:
  assumes res: "download_image_if_needed env request image_source folder filename w = (r, w')"
  shows "(\<forall>p. image_filepath image_source = Some p \<and> os_path_exists w p \<longrightarrow> r = Inr p \<and> w' = w)
    \<and> (\<forall>payload.
          \<not> (\<exists>p. image_filepath image_source = Some p \<and> os_path_exists w p)
          \<and> ImageSource.encoded_image image_source = Some payload \<and> payload \<noteq> [] \<longrightarrow>
          (\<forall>u. HttpGet u \<notin> set (effects w w'))
          \<and> (B64Decode payload \<in> set (effects w w')
               \<or> (\<exists>d. r = Inl (OSError d) \<and> os_fault env (Mkdir d))))
    \<and> (\<forall>u. HttpGet u \<in> set (effects w w') \<longrightarrow>
          \<not> (\<exists>p. image_filepath image_source = Some p \<and> os_path_exists w p)
          \<and> \<not> truthy (ImageSource.encoded_image image_source)
          \<and> image_url image_source = Some u)
    \<and> (\<forall>u. \<not> (\<exists>p. image_filepath image_source = Some p \<and> os_path_exists w p)
          \<and> \<not> truthy (ImageSource.encoded_image image_source)
          \<and> image_url image_source = Some u \<and> u \<noteq> [] \<longrightarrow>
          HttpGet u \<in> set (effects w w')
          \<or> (\<exists>d. r = Inl (OSError d) \<and> os_fault env (Mkdir d)))"
proof -
  have p1: "\<forall>p. image_filepath image_source = Some p \<and> os_path_exists w p \<longrightarrow> r = Inr p \<and> w' = w"
  proof (intro allI impI)
    fix p assume "image_filepath image_source = Some p \<and> os_path_exists w p"
    then have "existing_filepath w image_source = Some p" by (simp add: existing_filepath_Some)
    from resolver_existing [OF this] res show "r = Inr p \<and> w' = w" by simp
  qed
  have p2: "\<forall>payload.
          \<not> (\<exists>p. image_filepath image_source = Some p \<and> os_path_exists w p)
          \<and> ImageSource.encoded_image image_source = Some payload \<and> payload \<noteq> [] \<longrightarrow>
          (\<forall>u. HttpGet u \<notin> set (effects w w'))
          \<and> (B64Decode payload \<in> set (effects w w')
               \<or> (\<exists>d. r = Inl (OSError d) \<and> os_fault env (Mkdir d)))"
  proof (intro allI impI)
    fix payload
    assume a: "\<not> (\<exists>p. image_filepath image_source = Some p \<and> os_path_exists w p)
          \<and> ImageSource.encoded_image image_source = Some payload \<and> payload \<noteq> []"
    then have ex: "existing_filepath w image_source = None"
      by (simp add: existing_filepath_None_iff)
    from a have enc: "ImageSource.encoded_image image_source = Some payload" and ne: "payload \<noteq> []"
      by simp_all
    show "(\<forall>u. HttpGet u \<notin> set (effects w w'))
          \<and> (B64Decode payload \<in> set (effects w w')
               \<or> (\<exists>d. r = Inl (OSError d) \<and> os_fault env (Mkdir d)))"
      by (rule resolver_no_download_when_encoded [OF ex enc ne res])
  qed
  have p3: "\<forall>u. HttpGet u \<in> set (effects w w') \<longrightarrow>
          \<not> (\<exists>p. image_filepath image_source = Some p \<and> os_path_exists w p)
          \<and> \<not> truthy (ImageSource.encoded_image image_source)
          \<and> image_url image_source = Some u"
  proof (intro allI impI)
    fix u assume "HttpGet u \<in> set (effects w w')"
    from resolver_download_only_when [OF res this]
    show "\<not> (\<exists>p. image_filepath image_source = Some p \<and> os_path_exists w p)
          \<and> \<not> truthy (ImageSource.encoded_image image_source)
          \<and> image_url image_source = Some u"
      by (simp add: existing_filepath_None_iff)
  qed
  have p4: "\<forall>u. \<not> (\<exists>p. image_filepath image_source = Some p \<and> os_path_exists w p)
          \<and> \<not> truthy (ImageSource.encoded_image image_source)
          \<and> image_url image_source = Some u \<and> u \<noteq> [] \<longrightarrow>
          HttpGet u \<in> set (effects w w')
          \<or> (\<exists>d. r = Inl (OSError d) \<and> os_fault env (Mkdir d))"
  proof (intro allI impI)
    fix u
    assume a: "\<not> (\<exists>p. image_filepath image_source = Some p \<and> os_path_exists w p)
          \<and> \<not> truthy (ImageSource.encoded_image image_source)
          \<and> image_url image_source = Some u \<and> u \<noteq> []"
    then have ex: "existing_filepath w image_source = None"
      by (simp add: existing_filepath_None_iff)
    from a have ne: "\<not> truthy (ImageSource.encoded_image image_source)"
      and url: "image_url image_source = Some u" and nu: "u \<noteq> []"
      by simp_all
    show "HttpGet u \<in> set (effects w w') \<or> (\<exists>d. r = Inl (OSError d) \<and> os_fault env (Mkdir d))"
      by (rule resolver_downloads_url [OF ex ne url nu res])
  qed
  show ?thesis
    by (rule conjI [OF p1 conjI [OF p2 conjI [OF p3 p4]]])
qed

theorem source_precedence_witness:
  "os_path_exists demo_world ''/in/face.png''
   \<and> download_image_if_needed demo_env (Request ''u'')
        \<lparr>image_url = Some ''http://h/a.png'', encoded_image = Some ''iVBORw=='',
          image_filepath = Some ''/in/face.png''\<rparr> ''face/2024-01-02'' (Some ''t1'') demo_world
      = (Inr ''/in/face.png'', demo_world)"
proof -
  have ex: "os_path_exists demo_world ''/in/face.png''"
    by (simp add: os_path_exists_def demo_world_def)
  obtain r w' where res: "download_image_if_needed demo_env (Request ''u'')
        \<lparr>image_url = Some ''http://h/a.png'', encoded_image = Some ''iVBORw=='',
          image_filepath = Some ''/in/face.png''\<rparr> ''face/2024-01-02'' (Some ''t1'') demo_world
      = (r, w')"
    by (rule prod.exhaust)
  from source_precedence [OF res] ex have "r = Inr ''/in/face.png'' \<and> w' = demo_world"
    by simp
  with res ex show ?thesis by simp
qed

text \<open>
  C5. The inline payload. When the local path does not apply and \<open>encoded_image\<close> is a
  non-empty string that base64 decodes to \<open>data\<close>, the destination is the private path
  \<open>source/<folder>/<image name>\<close>, with \<open>.<type>\<close> appended when the sniffer names the type
  of \<open>data\<close> and as it is when it does not. Unless the file system refuses the
  directory or the write, the resolver returns that path, the file at that path holds
  exactly \<open>data\<close>, and that write is the only one the call made.
\<close>

theorem encoded_payload_roundtrip:
  assumes nofile: "\<not> (\<exists>p. image_filepath image_source = Some p \<and> os_path_exists w p)"
    and enc: "ImageSource.encoded_image image_source = Some payload" "payload \<noteq> []"
    and dec: "b64decode env payload = Inr data"
    and name: "image_name = (if truthy filename then the filename else uuid4 env (uuids w))"
    and dest: "dest = str_path (truediv (private_dir_of env request (os_path_join ''source'' folder))
                                  image_name)"
    and path: "path = (case imghdr_tests env data of
                         Some t \<Rightarrow> dest @ ''.'' @ type_name t
                       | None \<Rightarrow> dest)"
    and mk: "\<not> os_fault env (Mkdir (str_path (private_dir_of env request (os_path_join ''source'' folder))))"
    and wr: "\<not> os_fault env (FileWrite path data)"
    and res: "download_image_if_needed env request image_source folder filename w = (r, w')"
  shows "r = Inr path \<and> files w' path = Some data
         \<and> [e \<leftarrow> effects w w'. \<exists>p b. e = FileWrite p b] = [FileWrite path data]"
proof -
  from nofile have ex: "existing_filepath w image_source = None"
    by (simp add: existing_filepath_None_iff)
  obtain n w1 where
    n: "(if truthy filename then (the filename, w) else uuid_uuid4 env w) = (n, w1)"
    and t1: "trace w1 = trace w @ (if truthy filename then [] else [Uuid4])"
    by (rule image_name_cases)
  from image_name_value [OF n] name have nn: "n = image_name" by simp
  from get_private_path_ok [OF mk, of n w1] obtain w2 where
    g: "get_private_path env request (os_path_join ''source'' folder) n w1
          = (Inr (truediv (private_dir_of env request (os_path_join ''source'' folder)) n), w2)"
    by blast
  note t2 = get_private_path_trace [OF g]
  have p: "(case imghdr_what env data of
              Some t \<Rightarrow> str_path (truediv (private_dir_of env request (os_path_join ''source'' folder)) n) @ ''.'' @ t
            | None \<Rightarrow> str_path (truediv (private_dir_of env request (os_path_join ''source'' folder)) n)) = path"
    using path dest nn by (simp add: imghdr_what_def split: option.splits)
  from resolver_encoded [OF ex enc n g] res dec p wr
  have "r = Inr path" "w' = log_event (FileWrite path data)
     ((log_event (B64Decode payload) w2)\<lparr>files := (files (log_event (B64Decode payload) w2))(path \<mapsto> data)\<rparr>)"
    by (simp_all add: open_write_def Let_def)
  then show ?thesis using t1 t2
    by (simp add: effects_def)
qed

theorem encoded_payload_roundtrip_witness:
  "fst (download_image_if_needed demo_env (Request ''u'')
         \<lparr>image_url = Some ''http://h/raw'', encoded_image = Some ''iVBORw=='', image_filepath = None\<rparr>
         ''face/2024-01-02'' (Some ''t1'') demo_world)
     = Inr ''/data/u/roop/source/face/2024-01-02/t1.png''
   \<and> files (snd (download_image_if_needed demo_env (Request ''u'')
         \<lparr>image_url = Some ''http://h/raw'', encoded_image = Some ''iVBORw=='', image_filepath = None\<rparr>
         ''face/2024-01-02'' (Some ''t1'') demo_world))
       ''/data/u/roop/source/face/2024-01-02/t1.png'' = Some png_head"
proof -
  let ?src = "\<lparr>image_url = Some ''http://h/raw'', encoded_image = Some ''iVBORw=='', image_filepath = None\<rparr>"
  have dest: "''/data/u/roop/source/face/2024-01-02/t1''
      = str_path (truediv (private_dir_of demo_env (Request ''u'') (os_path_join ''source'' ''face/2024-01-02'')) ''t1'')"
    by (simp add: private_dir_of_def demo_env_def truediv_def parse_path_def parse_anchor_def
          str_path_def os_path_join_def)
  have path: "''/data/u/roop/source/face/2024-01-02/t1.png''
      = (case imghdr_tests demo_env png_head of
           Some t \<Rightarrow> ''/data/u/roop/source/face/2024-01-02/t1'' @ ''.'' @ type_name t
         | None \<Rightarrow> ''/data/u/roop/source/face/2024-01-02/t1'')"
    by (simp add: demo_env_def png_head_def)
  from encoded_payload_roundtrip [where image_source = ?src and payload = "''iVBORw==''"
      and env = demo_env and data = png_head and filename = "Some ''t1''" and image_name = "''t1''"
      and w = demo_world and request = "Request ''u''" and folder = "''face/2024-01-02''",
      OF _ _ _ _ _ dest path _ _ surjective_pairing]
  show ?thesis
    by (simp add: demo_env_def demo_world_def os_path_exists_def)
qed

text \<open>
  C3. A source whose three fields are all absent is rejected with the HTTP 400
  "at least one is required", and the world is left as it was: nothing was requested
  from the network, nothing written, nothing created.
\<close>

theorem all_fields_absent_rejected:
  "download_image_if_needed env request
     \<lparr>image_url = None, encoded_image = None, image_filepath = None\<rparr> folder filename w
   = (Inl (HTTPException 400
             ''image_url, encoded_image, image_filepath at least one is required''), w)"
  by (simp add: download_image_if_needed_def)

text \<open>What choosing the image name and computing the private path do to the world.\<close>

lemma image_name_world:
  "(if truthy filename then (the filename, w) else uuid_uuid4 env w) = (image_name, w1) \<Longrightarrow>
   files w1 = files w \<and> dirs w1 = dirs w"
  by (auto simp: uuid_uuid4_def log_event_def split: if_splits)

lemma get_private_path_world:
  assumes "get_private_path env request folder filename w = (r, w')"
  shows "files w' = files w"
    and "os_path_exists w (str_path (private_dir_of env request folder)) \<Longrightarrow>
           r = Inr (truediv (private_dir_of env request folder) filename) \<and> w' = w"
    and "\<not> os_path_exists w (str_path (private_dir_of env request folder)) \<Longrightarrow>
         os_fault env (Mkdir (str_path (private_dir_of env request folder))) \<Longrightarrow>
           r = Inl (OSError (str_path (private_dir_of env request folder))) \<and> dirs w' = dirs w"
    and "\<not> os_path_exists w (str_path (private_dir_of env request folder)) \<Longrightarrow>
         \<not> os_fault env (Mkdir (str_path (private_dir_of env request folder))) \<Longrightarrow>
           r = Inr (truediv (private_dir_of env request folder) filename)
           \<and> dirs w' = dirs w \<union> set (ancestors (private_dir_of env request folder))"
  using assms
  by (auto simp: get_private_path_def private_dir_of_def mkdir_def Let_def log_event_def
        split: if_splits)

text \<open>
  C4, as the code has it. A source whose three fields are each absent or an empty string
  is rejected with an HTTP 400 in every combination, but with two different details.
  When all three are absent the detail is "at least one is required" and nothing has
  happened. When at least one field is an empty string the first test passes: the
  resolver picks the image name, drawing a UUID when no file name was given, then creates
  the destination directory \<open>source/<folder>\<close> with its ancestors when it does not
  exist, and only then fails, with the detail "Process image failed"; when the creation
  of the directory is refused, its I/O error is the result instead. These are all the
  effects: nothing is decoded, downloaded or written, and no file changes.
\<close>

theorem unusable_source_rejected:
  assumes url: "image_url image_source \<in> {None, Some []}"
    and enc: "ImageSource.encoded_image image_source \<in> {None, Some []}"
    and fp: "image_filepath image_source \<in> {None, Some []}"
    and res: "download_image_if_needed env request image_source folder filename w = (r, w')"
  shows "(all_absent image_source \<longrightarrow>
            r = Inl (HTTPException 400
                       ''image_url, encoded_image, image_filepath at least one is required'')
            \<and> w' = w)
       \<and> (\<not> all_absent image_source \<longrightarrow>
            effects w w'
              = (if truthy filename then [] else [Uuid4])
                @ (if os_path_exists w
                        (str_path (private_dir_of env request (os_path_join ''source'' folder)))
                   then []
                   else [Mkdir (str_path (private_dir_of env request (os_path_join ''source'' folder)))])
            \<and> files w' = files w
            \<and> (if os_path_exists w
                     (str_path (private_dir_of env request (os_path_join ''source'' folder)))
               then r = Inl (HTTPException 400 ''Process image failed'') \<and> dirs w' = dirs w
               else if os_fault env
                     (Mkdir (str_path (private_dir_of env request (os_path_join ''source'' folder))))
               then r = Inl (OSError
                              (str_path (private_dir_of env request (os_path_join ''source'' folder))))
                    \<and> dirs w' = dirs w
               else r = Inl (HTTPException 400 ''Process image failed'')
                    \<and> dirs w' = dirs w
                         \<union> set (ancestors (private_dir_of env request (os_path_join ''source'' folder)))))"
proof (intro conjI impI)
  assume "all_absent image_source"
  from resolver_absent [OF this] res
  show "r = Inl (HTTPException 400
                   ''image_url, encoded_image, image_filepath at least one is required'')"
    and "w' = w"
    by simp_all
next
  let ?d = "private_dir_of env request (os_path_join ''source'' folder)"
  assume na: "\<not> all_absent image_source"
  from fp have ex: "existing_filepath w image_source = None"
    by (auto simp: existing_filepath_def)
  note ne = field_empty [OF enc] and nu = field_empty [OF url]
  obtain n w1 where
    n: "(if truthy filename then (the filename, w) else uuid_uuid4 env w) = (n, w1)"
    and t1: "trace w1 = trace w @ (if truthy filename then [] else [Uuid4])"
    by (rule image_name_cases)
  from image_name_world [OF n] have f1: "files w1 = files w" and d1: "dirs w1 = dirs w"
    by simp_all
  then have ex1: "os_path_exists w1 (str_path ?d) = os_path_exists w (str_path ?d)"
    by (simp add: os_path_exists_def)
  obtain r2 w2 where
    g: "get_private_path env request (os_path_join ''source'' folder) n w1 = (r2, w2)"
    by (rule prod.exhaust)
  note t2 = get_private_path_trace [OF g, unfolded ex1]
  note gw = get_private_path_world [OF g, unfolded ex1]
  have rw: "w' = w2 \<and> r = (case r2 of Inl e \<Rightarrow> Inl e
                            | Inr dest \<Rightarrow> Inl (HTTPException 400 ''Process image failed''))"
  proof (cases r2)
    case (Inl e)
    with resolver_mkdir_failed [OF na ex n] g res show ?thesis by simp
  next
    case (Inr dest)
    with resolver_unusable [OF na ex ne nu n] g res show ?thesis by simp
  qed
  show "effects w w'
              = (if truthy filename then [] else [Uuid4])
                @ (if os_path_exists w (str_path ?d) then [] else [Mkdir (str_path ?d)])"
    using rw t1 t2 by (simp add: effects_def)
  show "files w' = files w" using rw gw(1) f1 by simp
  show "if os_path_exists w (str_path ?d)
        then r = Inl (HTTPException 400 ''Process image failed'') \<and> dirs w' = dirs w
        else if os_fault env (Mkdir (str_path ?d))
        then r = Inl (OSError (str_path ?d)) \<and> dirs w' = dirs w
        else r = Inl (HTTPException 400 ''Process image failed'')
             \<and> dirs w' = dirs w \<union> set (ancestors ?d)"
  proof (cases "os_path_exists w (str_path ?d)")
    case True
    from gw(2) [OF True] rw d1 True show ?thesis by simp
  next
    case nex: False
    show ?thesis
    proof (cases "os_fault env (Mkdir (str_path ?d))")
      case True
      from gw(3) [OF nex True] rw d1 nex True show ?thesis by simp
    next
      case False
      from gw(4) [OF nex False] rw d1 nex False show ?thesis by simp
    qed
  qed
qed

text \<open>
  The same at a source whose URL and local path are empty strings, with no file name: a
  UUID is drawn and the directory of the swap images is created before the rejection.
\<close>

theorem unusable_source_rejected_witness:
  "\<not> all_absent \<lparr>image_url = Some [], encoded_image = None, image_filepath = Some []\<rparr>
   \<and> fst (download_image_if_needed demo_env (Request ''u'')
         \<lparr>image_url = Some [], encoded_image = None, image_filepath = Some []\<rparr>
         ''swap/2024-01-02'' None demo_world)
     = Inl (HTTPException 400 ''Process image failed'')
   \<and> effects demo_world
       (snd (download_image_if_needed demo_env (Request ''u'')
         \<lparr>image_url = Some [], encoded_image = None, image_filepath = Some []\<rparr>
         ''swap/2024-01-02'' None demo_world))
     = [Uuid4, Mkdir ''/data/u/roop/source/swap/2024-01-02'']
   \<and> ''/data/u/roop/source/swap/2024-01-02''
       \<in> dirs (snd (download_image_if_needed demo_env (Request ''u'')
         \<lparr>image_url = Some [], encoded_image = None, image_filepath = Some []\<rparr>
         ''swap/2024-01-02'' None demo_world))"
proof -
  let ?src = "\<lparr>image_url = Some [], encoded_image = None, image_filepath = Some []\<rparr>"
  let ?d = "private_dir_of demo_env (Request ''u'') (os_path_join ''source'' ''swap/2024-01-02'')"
  have d: "str_path ?d = ''/data/u/roop/source/swap/2024-01-02''"
    by code_simp
  have a: "''/data/u/roop/source/swap/2024-01-02'' \<in> set (ancestors ?d)"
    by code_simp
  have nex: "\<not> os_path_exists demo_world ''/data/u/roop/source/swap/2024-01-02''"
    by (simp add: os_path_exists_def demo_world_def)
  have nf: "\<not> os_fault demo_env (Mkdir ''/data/u/roop/source/swap/2024-01-02'')"
    by (simp add: demo_env_def)
  have na: "\<not> all_absent ?src" by (simp add: all_absent_def)
  from unusable_source_rejected [OF _ _ _ surjective_pairing,
      where image_source = ?src
        and env = demo_env and request = "Request ''u''" and folder = "''swap/2024-01-02''"
        and filename = None and w = demo_world]
  show ?thesis using na nex nf a unfolding d by simp
qed

text \<open>
  C4, as the specification states it, fails: with \<open>image_url\<close> the empty string and the
  two other fields absent the error is not the "at least one is required" one.
\<close>

theorem empty_string_source_counterexample:
  "fst (download_image_if_needed demo_env (Request ''u'')
         \<lparr>image_url = Some [], encoded_image = None, image_filepath = None\<rparr>
         ''face/2024-01-02'' (Some ''t1'') demo_world)
     = Inl (HTTPException 400 ''Process image failed'')
   \<and> fst (download_image_if_needed demo_env (Request ''u'')
         \<lparr>image_url = Some [], encoded_image = None, image_filepath = None\<rparr>
         ''face/2024-01-02'' (Some ''t1'') demo_world)
     \<noteq> Inl (HTTPException 400
              ''image_url, encoded_image, image_filepath at least one is required'')"
  by (simp add: download_image_if_needed_def existing_filepath_def get_private_path_def mkdir_def
        demo_env_def Let_def split: prod.splits)

subsection \<open>Downloading\<close>

text \<open>
  C6. A download whose content the sniffer can type. When the request succeeds and the
  body is written, \<open>download_image\<close> compares the sniffed type with the extension that
  \<open>os.path.splitext\<close> finds in the destination path \<open>base @ ext\<close>:
  \<^item> if they differ, which includes the path without extension, the file is renamed to
    \<open>base.<type>\<close>, that path is returned, it holds the downloaded bytes and the
    original path is gone (unless the file system refuses the renaming);
  \<^item> if the extension is the type already, the path is returned as it was given and
    nothing is renamed.
\<close>

theorem download_fixes_extension:
  assumes get: "requests_get env url = Inr response"
    and status: "\<not> (400 \<le> status_code response \<and> status_code response < 600)"
    and wr: "\<not> os_fault env (FileWrite output_path (content response))"
    and sniff: "imghdr_tests env (take 32 (content response)) = Some t"
    and ext: "splitext output_path = (base, ext)"
    and res: "download_image env url output_path w = (r, w')"
  shows "((ext = [] \<or> drop 1 ext \<noteq> type_name t)
          \<and> \<not> os_fault env (Rename output_path (base @ ''.'' @ type_name t)) \<longrightarrow>
            r = Inr (base @ ''.'' @ type_name t)
            \<and> files w' (base @ ''.'' @ type_name t) = Some (content response)
            \<and> files w' output_path = None
            \<and> effects w w' = [HttpGet url, FileWrite output_path (content response),
                               Rename output_path (base @ ''.'' @ type_name t)])
       \<and> (drop 1 ext = type_name t \<longrightarrow>
            r = Inr output_path
            \<and> files w' output_path = Some (content response)
            \<and> effects w w' = [HttpGet url, FileWrite output_path (content response)])"
proof (intro conjI impI)
  assume a: "(ext = [] \<or> drop 1 ext \<noteq> type_name t)
          \<and> \<not> os_fault env (Rename output_path (base @ ''.'' @ type_name t))"
  then have d: "drop 1 ext \<noteq> type_name t" using type_name_nonempty [of t] by auto
  have ne: "output_path \<noteq> base @ ''.'' @ type_name t"
    using splitext_append [OF ext] d by auto
  from res get status wr sniff ext a d
  have "r = Inr (base @ ''.'' @ type_name t)"
    and "w' = log_event (Rename output_path (base @ ''.'' @ type_name t))
               ((log_event (FileWrite output_path (content response)) (log_event (HttpGet url) w))
                 \<lparr>files := (files w)(output_path := None,
                                      base @ ''.'' @ type_name t \<mapsto> content response)\<rparr>)"
    by (auto simp: download_image_def http_get_def raise_for_status_def open_write_def
          imghdr_what_file_def imghdr_what_def os_rename_def type_name_nonempty Let_def log_event_def)
  then show "r = Inr (base @ ''.'' @ type_name t)"
    and "files w' (base @ ''.'' @ type_name t) = Some (content response)"
    and "files w' output_path = None"
    and "effects w w' = [HttpGet url, FileWrite output_path (content response),
                               Rename output_path (base @ ''.'' @ type_name t)]"
    using ne by (simp_all add: effects_def)
next
  assume d: "drop 1 ext = type_name t"
  from res get status wr sniff ext d
  have "r = Inr output_path"
    and "w' = log_event (FileWrite output_path (content response)) ((log_event (HttpGet url) w)
                 \<lparr>files := (files w)(output_path \<mapsto> content response)\<rparr>)"
    by (auto simp: download_image_def http_get_def raise_for_status_def open_write_def
          imghdr_what_file_def imghdr_what_def type_name_nonempty Let_def log_event_def)
  then show "r = Inr output_path"
    and "files w' output_path = Some (content response)"
    and "effects w w' = [HttpGet url, FileWrite output_path (content response)]"
    by (simp_all add: effects_def)
qed

theorem download_fixes_extension_witness:
  "fst (download_image demo_env ''http://h/a.png'' ''/tmp/t1.jpg'' demo_world) = Inr ''/tmp/t1.png''
   \<and> fst (download_image demo_env ''http://h/a.png'' ''/tmp/t1.png'' demo_world) = Inr ''/tmp/t1.png''"
proof -
  have get: "requests_get demo_env ''http://h/a.png'' = Inr \<lparr>status_code = 200, content = png_head\<rparr>"
    by (simp add: demo_env_def)
  have sniff: "imghdr_tests demo_env (take 32 (content \<lparr>status_code = 200, content = png_head\<rparr>)) = Some Png"
    by (simp add: demo_env_def png_head_def)
  have e1: "splitext ''/tmp/t1.jpg'' = (''/tmp/t1'', ''.jpg'')"
    by (simp add: splitext_def rfind_def)
  have e2: "splitext ''/tmp/t1.png'' = (''/tmp/t1'', ''.png'')"
    by (simp add: splitext_def rfind_def)
  from download_fixes_extension [OF get _ _ sniff e1 surjective_pairing, of demo_world]
  have a: "fst (download_image demo_env ''http://h/a.png'' ''/tmp/t1.jpg'' demo_world) = Inr ''/tmp/t1.png''"
    by (simp add: demo_env_def)
  from download_fixes_extension [OF get _ _ sniff e2 surjective_pairing, of demo_world]
  have b: "fst (download_image demo_env ''http://h/a.png'' ''/tmp/t1.png'' demo_world) = Inr ''/tmp/t1.png''"
    by (simp add: demo_env_def)
  from a b show ?thesis by simp
qed

text \<open>
  C10. A download whose content the sniffer cannot type: no error, the destination path
  comes back unchanged and holds the downloaded bytes, nothing is renamed, and the one
  trace of the failure to sniff is the warning in the log.
\<close>

theorem download_unknown_type_keeps_path:
  assumes get: "requests_get env url = Inr response"
    and status: "\<not> (400 \<le> status_code response \<and> status_code response < 600)"
    and wr: "\<not> os_fault env (FileWrite output_path (content response))"
    and sniff: "imghdr_tests env (take 32 (content response)) = None"
    and res: "download_image env url output_path w = (r, w')"
  shows "r = Inr output_path
       \<and> files w' output_path = Some (content response)
       \<and> effects w w' = [HttpGet url, FileWrite output_path (content response),
                          LogWarning ''Could not determine the image type.'']"
proof -
  from res get status wr sniff
  have "r = Inr output_path"
    and "w' = log_event (LogWarning ''Could not determine the image type.'')
               (log_event (FileWrite output_path (content response)) ((log_event (HttpGet url) w)
                 \<lparr>files := (files w)(output_path \<mapsto> content response)\<rparr>))"
    by (auto simp: download_image_def http_get_def raise_for_status_def open_write_def
          imghdr_what_file_def imghdr_what_def Let_def log_event_def split: prod.splits)
  then show ?thesis
    by (simp add: effects_def)
qed

theorem download_unknown_type_keeps_path_witness:
  "fst (download_image demo_env ''http://h/raw'' ''/tmp/t1.jpg'' demo_world) = Inr ''/tmp/t1.jpg''
   \<and> effects demo_world (snd (download_image demo_env ''http://h/raw'' ''/tmp/t1.jpg'' demo_world))
       = [HttpGet ''http://h/raw'', FileWrite ''/tmp/t1.jpg'' [1, 2],
          LogWarning ''Could not determine the image type.'']"
proof -
  have get: "requests_get demo_env ''http://h/raw'' = Inr \<lparr>status_code = 200, content = [1, 2]\<rparr>"
    by (simp add: demo_env_def)
  have sniff: "imghdr_tests demo_env (take 32 (content \<lparr>status_code = 200, content = [1, 2]\<rparr>)) = None"
    by (simp add: demo_env_def png_head_def)
  from download_unknown_type_keeps_path [OF get _ _ sniff surjective_pairing, of "''/tmp/t1.jpg''" demo_world]
  show ?thesis
    by (simp add: demo_env_def)
qed

subsection \<open>The option mapper\<close>

text \<open>
  The two lookups return the first entry of the registry that bears the name, and
  \<open>None\<close> exactly when no entry does.
\<close>

lemma upscaler_None_iff:
  "upscaler registry n = None \<longleftrightarrow> (\<forall>item \<in> set registry. UpscalerData.name item \<noteq> n)"
  by (induction registry) auto

lemma upscaler_Some:
  "upscaler registry n = Some item \<Longrightarrow>
   \<exists>before rest. registry = before @ item # rest \<and> UpscalerData.name item = n
      \<and> (\<forall>x \<in> set before. UpscalerData.name x \<noteq> n)"
proof (induction registry)
  case Nil
  then show ?case by simp
next
  case (Cons x xs)
  show ?case
  proof (cases "UpscalerData.name x = n")
    case True
    with Cons.prems have "item = x" by simp
    with True have "x # xs = [] @ item # xs \<and> UpscalerData.name item = n
        \<and> (\<forall>y \<in> set []. UpscalerData.name y \<noteq> n)" by simp
    then show ?thesis by blast
  next
    case False
    with Cons.prems have "upscaler xs n = Some item" by simp
    from Cons.IH [OF this] obtain before rest where
      "xs = before @ item # rest" "UpscalerData.name item = n"
      "\<forall>y \<in> set before. UpscalerData.name y \<noteq> n" by blast
    with False have "x # xs = (x # before) @ item # rest \<and> UpscalerData.name item = n
        \<and> (\<forall>y \<in> set (x # before). UpscalerData.name y \<noteq> n)" by simp
    then show ?thesis by blast
  qed
qed

lemma face_restorer_None_iff:
  "face_restorer registry n = None \<longleftrightarrow> (\<forall>item \<in> set registry. FaceRestoration.name item \<noteq> n)"
  by (induction registry) auto

lemma face_restorer_Some:
  "face_restorer registry n = Some item \<Longrightarrow>
   \<exists>before rest. registry = before @ item # rest \<and> FaceRestoration.name item = n
      \<and> (\<forall>x \<in> set before. FaceRestoration.name x \<noteq> n)"
proof (induction registry)
  case Nil
  then show ?case by simp
next
  case (Cons x xs)
  show ?case
  proof (cases "FaceRestoration.name x = n")
    case True
    with Cons.prems have "item = x" by simp
    with True have "x # xs = [] @ item # xs \<and> FaceRestoration.name item = n
        \<and> (\<forall>y \<in> set []. FaceRestoration.name y \<noteq> n)" by simp
    then show ?thesis by blast
  next
    case False
    with Cons.prems have "face_restorer xs n = Some item" by simp
    from Cons.IH [OF this] obtain before rest where
      "xs = before @ item # rest" "FaceRestoration.name item = n"
      "\<forall>y \<in> set before. FaceRestoration.name y \<noteq> n" by blast
    with False have "x # xs = (x # before) @ item # rest \<and> FaceRestoration.name item = n
        \<and> (\<forall>y \<in> set (x # before). FaceRestoration.name y \<noteq> n)" by simp
    then show ?thesis by blast
  qed
qed

text \<open>
  C7. The option mapper never fails: it is a total function to \<open>UpscaleOptions\<close>. An
  upscaler name, or a face restorer name, that no entry of the host's registry bears
  gives \<open>None\<close> in that slot; a name that some entry bears selects an entry of the
  registry with exactly that name, the first one. Scale and the two visibilities are
  copied.
\<close>

theorem option_mapper_lookup:
  fixes roop_options :: RoopOptions
  shows
  "((\<forall>item \<in> set (sd_upscalers env).
        UpscalerData.name item \<noteq> upscaler_name (RoopOptions.upscale_options roop_options)) \<longrightarrow>
      UpscaleOptions.upscaler (upscale_options env roop_options) = None)
   \<and> ((\<forall>item \<in> set (face_restorers env).
        FaceRestoration.name item \<noteq> face_restorer_name (RoopOptions.upscale_options roop_options)) \<longrightarrow>
      UpscaleOptions.face_restorer (upscale_options env roop_options) = None)
   \<and> ((\<exists>item \<in> set (sd_upscalers env).
        UpscalerData.name item = upscaler_name (RoopOptions.upscale_options roop_options)) \<longrightarrow>
      (\<exists>item before rest. UpscaleOptions.upscaler (upscale_options env roop_options) = Some item
         \<and> sd_upscalers env = before @ item # rest
         \<and> UpscalerData.name item = upscaler_name (RoopOptions.upscale_options roop_options)
         \<and> (\<forall>x \<in> set before.
               UpscalerData.name x \<noteq> upscaler_name (RoopOptions.upscale_options roop_options))))
   \<and> ((\<exists>item \<in> set (face_restorers env).
        FaceRestoration.name item = face_restorer_name (RoopOptions.upscale_options roop_options)) \<longrightarrow>
      (\<exists>item before rest. UpscaleOptions.face_restorer (upscale_options env roop_options) = Some item
         \<and> face_restorers env = before @ item # rest
         \<and> FaceRestoration.name item = face_restorer_name (RoopOptions.upscale_options roop_options)
         \<and> (\<forall>x \<in> set before.
               FaceRestoration.name x \<noteq> face_restorer_name (RoopOptions.upscale_options roop_options))))
   \<and> UpscaleOptions.scale (upscale_options env roop_options)
       = RequestUpscaleOptions.scale (RoopOptions.upscale_options roop_options)
   \<and> UpscaleOptions.upscale_visibility (upscale_options env roop_options)
       = RequestUpscaleOptions.upscale_visibility (RoopOptions.upscale_options roop_options)
   \<and> UpscaleOptions.restorer_visibility (upscale_options env roop_options)
       = RequestUpscaleOptions.restorer_visibility (RoopOptions.upscale_options roop_options)"
proof -
  let ?un = "upscaler_name (RoopOptions.upscale_options roop_options)"
  let ?fn = "face_restorer_name (RoopOptions.upscale_options roop_options)"
  have u: "UpscaleOptions.upscaler (upscale_options env roop_options) = upscaler (sd_upscalers env) ?un"
    and f: "UpscaleOptions.face_restorer (upscale_options env roop_options)
              = face_restorer (face_restorers env) ?fn"
    by (simp_all add: upscale_options_def Let_def)
  have p1: "(\<forall>item \<in> set (sd_upscalers env). UpscalerData.name item \<noteq> ?un) \<longrightarrow>
      UpscaleOptions.upscaler (upscale_options env roop_options) = None"
    by (simp add: u upscaler_None_iff)
  have p2: "(\<forall>item \<in> set (face_restorers env). FaceRestoration.name item \<noteq> ?fn) \<longrightarrow>
      UpscaleOptions.face_restorer (upscale_options env roop_options) = None"
    by (simp add: f face_restorer_None_iff)
  have p3: "(\<exists>item \<in> set (sd_upscalers env). UpscalerData.name item = ?un) \<longrightarrow>
      (\<exists>item before rest. UpscaleOptions.upscaler (upscale_options env roop_options) = Some item
         \<and> sd_upscalers env = before @ item # rest \<and> UpscalerData.name item = ?un
         \<and> (\<forall>x \<in> set before. UpscalerData.name x \<noteq> ?un))"
  proof
    assume "\<exists>item \<in> set (sd_upscalers env). UpscalerData.name item = ?un"
    then have "upscaler (sd_upscalers env) ?un \<noteq> None" by (simp add: upscaler_None_iff)
    then obtain item where i: "upscaler (sd_upscalers env) ?un = Some item" by blast
    from upscaler_Some [OF i] i u show "\<exists>item before rest.
         UpscaleOptions.upscaler (upscale_options env roop_options) = Some item
         \<and> sd_upscalers env = before @ item # rest \<and> UpscalerData.name item = ?un
         \<and> (\<forall>x \<in> set before. UpscalerData.name x \<noteq> ?un)" by auto
  qed
  have p4: "(\<exists>item \<in> set (face_restorers env). FaceRestoration.name item = ?fn) \<longrightarrow>
      (\<exists>item before rest. UpscaleOptions.face_restorer (upscale_options env roop_options) = Some item
         \<and> face_restorers env = before @ item # rest \<and> FaceRestoration.name item = ?fn
         \<and> (\<forall>x \<in> set before. FaceRestoration.name x \<noteq> ?fn))"
  proof
    assume "\<exists>item \<in> set (face_restorers env). FaceRestoration.name item = ?fn"
    then have "face_restorer (face_restorers env) ?fn \<noteq> None" by (simp add: face_restorer_None_iff)
    then obtain item where i: "face_restorer (face_restorers env) ?fn = Some item" by blast
    from face_restorer_Some [OF i] i f show "\<exists>item before rest.
         UpscaleOptions.face_restorer (upscale_options env roop_options) = Some item
         \<and> face_restorers env = before @ item # rest \<and> FaceRestoration.name item = ?fn
         \<and> (\<forall>x \<in> set before. FaceRestoration.name x \<noteq> ?fn)" by auto
  qed
  have p5: "UpscaleOptions.scale (upscale_options env roop_options)
       = RequestUpscaleOptions.scale (RoopOptions.upscale_options roop_options)"
    and p6: "UpscaleOptions.upscale_visibility (upscale_options env roop_options)
       = RequestUpscaleOptions.upscale_visibility (RoopOptions.upscale_options roop_options)"
    and p7: "UpscaleOptions.restorer_visibility (upscale_options env roop_options)
       = RequestUpscaleOptions.restorer_visibility (RoopOptions.upscale_options roop_options)"
    by (simp_all add: upscale_options_def Let_def)
  show ?thesis
    by (rule conjI [OF p1 conjI [OF p2 conjI [OF p3 conjI [OF p4 conjI [OF p5 conjI [OF p6 p7]]]]]])
qed

theorem option_mapper_lookup_witness:
  "\<not> (\<exists>item \<in> set (sd_upscalers demo_env).
      UpscalerData.name item = upscaler_name (RoopOptions.upscale_options demo_options))
   \<and> UpscaleOptions.upscaler (upscale_options demo_env demo_options) = None
   \<and> (\<exists>item \<in> set (face_restorers demo_env).
      FaceRestoration.name item = face_restorer_name (RoopOptions.upscale_options demo_options))
   \<and> (\<exists>item. UpscaleOptions.face_restorer (upscale_options demo_env demo_options) = Some item
         \<and> FaceRestoration.name item = ''CodeFormer'')"
proof -
  have none: "\<forall>item \<in> set (sd_upscalers demo_env).
      UpscalerData.name item \<noteq> upscaler_name (RoopOptions.upscale_options demo_options)"
    by (simp add: demo_env_def demo_options_def)
  have some: "\<exists>item \<in> set (face_restorers demo_env).
      FaceRestoration.name item = face_restorer_name (RoopOptions.upscale_options demo_options)"
    by (simp add: demo_env_def demo_options_def)
  have name: "face_restorer_name (RoopOptions.upscale_options demo_options) = ''CodeFormer''"
    by (simp add: demo_options_def)
  from option_mapper_lookup [of demo_env demo_options] none
  have a: "UpscaleOptions.upscaler (upscale_options demo_env demo_options) = None"
    by blast
  from option_mapper_lookup [of demo_env demo_options] some name
  have b: "\<exists>item. UpscaleOptions.face_restorer (upscale_options demo_env demo_options) = Some item
         \<and> FaceRestoration.name item = ''CodeFormer''"
    by metis
  from none a some b show ?thesis by blast
qed

text \<open>Only \<open>datetime.now\<close> reads the clock: no other step moves \<open>ticks\<close>.\<close>

lemma download_image_ticks:
  "download_image env url output_path w = (r, w') \<Longrightarrow> ticks w' = ticks w"
  by (auto simp: download_image_def http_get_def open_write_def os_rename_def imghdr_what_file_def
        log_event_def Let_def split: if_splits prod.splits sum.splits option.splits)

lemma get_private_path_ticks:
  "get_private_path env request folder filename w = (r, w') \<Longrightarrow> ticks w' = ticks w"
  by (auto simp: get_private_path_def mkdir_def log_event_def Let_def
        split: if_splits prod.splits sum.splits)

lemma image_name_ticks:
  "(if truthy filename then (the filename, w) else uuid_uuid4 env w) = (image_name, w1) \<Longrightarrow>
   ticks w1 = ticks w"
  by (auto simp: uuid_uuid4_def log_event_def split: if_splits)

lemma resolver_ticks:
  assumes res: "download_image_if_needed env request image_source folder filename w = (r, w')"
  shows "ticks w' = ticks w"
proof (cases "all_absent image_source")
  case True
  from resolver_absent [OF True] res show ?thesis by simp
next
  case na: False
  show ?thesis
  proof (cases "existing_filepath w image_source")
    case (Some p)
    from resolver_existing [OF Some] res show ?thesis by simp
  next
    case ex: None
    obtain n w1 where
      n: "(if truthy filename then (the filename, w) else uuid_uuid4 env w) = (n, w1)"
      by (rule prod.exhaust)
    obtain r2 w2 where
      g: "get_private_path env request (os_path_join ''source'' folder) n w1 = (r2, w2)"
      by (rule prod.exhaust)
    from image_name_ticks [OF n] get_private_path_ticks [OF g] have t2: "ticks w2 = ticks w"
      by simp
    show ?thesis
    proof (cases r2)
      case (Inl e)
      with resolver_mkdir_failed [OF na ex n] g res t2 show ?thesis by simp
    next
      case (Inr d)
      show ?thesis
      proof (cases "truthy (ImageSource.encoded_image image_source)")
        case True
        then obtain payload where enc: "ImageSource.encoded_image image_source = Some payload"
          and ne: "payload \<noteq> []" using truthy_Some by blast
        from resolver_encoded [OF ex enc ne n] g Inr res
        have "ticks w' = ticks w2"
          by (auto simp: open_write_def log_event_def Let_def
                split: sum.splits option.splits if_splits)
        with t2 show ?thesis by simp
      next
        case ne: False
        show ?thesis
        proof (cases "truthy (image_url image_source)")
          case True
          then obtain url where url: "image_url image_source = Some url" "url \<noteq> []"
            using truthy_Some by blast
          from resolver_url [OF ex ne url n] g Inr res
          have "download_image env url (str_path d) w2 = (r, w')" by simp
          from download_image_ticks [OF this] t2 show ?thesis by simp
        next
          case False
          from resolver_unusable [OF na ex ne False n] g Inr res t2 show ?thesis by simp
        qed
      qed
    qed
  qed
qed

lemma get_private_path_only_mkdir:
  "get_private_path env request folder filename w = (r, w') \<Longrightarrow> only_events resolver_event w w'"
  by (rule get_private_path_events) simp_all

subsection \<open>Paths and file names\<close>

lemma takeWhile_notin:
  "c \<notin> set xs \<Longrightarrow> takeWhile (\<lambda>x. x \<noteq> c) (xs @ ys) = xs @ takeWhile (\<lambda>x. x \<noteq> c) ys"
  by (induction xs) auto

lemma takeWhile_notin_all: "c \<notin> set xs \<Longrightarrow> takeWhile (\<lambda>x. x \<noteq> c) xs = xs"
  by (induction xs) auto

lemma takeWhile_in:
  "c \<in> set xs \<Longrightarrow> takeWhile (\<lambda>x. x \<noteq> c) (xs @ ys) = takeWhile (\<lambda>x. x \<noteq> c) xs"
  by (induction xs) auto

lemma split_sep_plain: "c \<notin> set s \<Longrightarrow> split_sep c s = [s]"
  by (induction s) auto

lemma parse_anchor_plain: "CHR ''/'' \<notin> set s \<Longrightarrow> parse_anchor s = []"
  by (cases s) (auto simp: parse_anchor_def)

lemma parse_path_plain: "plain_name s \<Longrightarrow> parse_path s = Path [] [s]"
  by (auto simp: parse_path_def plain_name_def split_sep_plain parse_anchor_plain)

lemma join_sep_snoc: "join_sep (ps @ [x]) = (if ps = [] then x else join_sep ps @ ''/'' @ x)"
  by (induction ps rule: join_sep.induct) auto

lemma str_path_truediv_plain:
  "plain_name s \<Longrightarrow> parts d \<noteq> [] \<Longrightarrow> str_path (truediv d s) = str_path d @ CHR ''/'' # s"
  by (simp add: truediv_def parse_path_plain str_path_def join_sep_snoc)

lemma file_name_append: "CHR ''/'' \<notin> set n \<Longrightarrow> file_name (X @ CHR ''/'' # n) = n"
  by (simp add: file_name_def takeWhile_notin)

lemma stem_plain: "CHR ''.'' \<notin> set s \<Longrightarrow> stem s = s"
  by (simp add: stem_def takeWhile_notin_all)

lemma stem_ext: "CHR ''.'' \<notin> set s \<Longrightarrow> stem (s @ CHR ''.'' # t) = s"
  by (simp add: stem_def takeWhile_notin)

lemma type_name_no_sep: "CHR ''/'' \<notin> set (type_name t)"
  by (cases t) simp_all

lemma rfind_from_eq:
  "rfind_from c xs i found =
     (if c \<in> set xs
      then i + int (length xs) - 1 - int (length (takeWhile (\<lambda>x. x \<noteq> c) (rev xs)))
      else found)"
proof (induction xs arbitrary: i found)
  case Nil
  then show ?case by simp
next
  case (Cons x xs)
  show ?case
  proof (cases "c \<in> set xs")
    case True
    then have "takeWhile (\<lambda>x. x \<noteq> c) (rev xs @ [x]) = takeWhile (\<lambda>x. x \<noteq> c) (rev xs)"
      by (simp add: takeWhile_in)
    with True Cons.IH show ?thesis by simp
  next
    case False
    then have "takeWhile (\<lambda>x. x \<noteq> c) (rev xs @ [x]) = rev xs @ takeWhile (\<lambda>x. x \<noteq> c) [x]"
      by (simp add: takeWhile_notin)
    with False Cons.IH show ?thesis by auto
  qed
qed

lemma rfind_sep: "CHR ''/'' \<notin> set n \<Longrightarrow> rfind (X @ CHR ''/'' # n) CHR ''/'' = int (length X)"
  by (simp add: rfind_def rfind_from_eq takeWhile_notin)

lemma rfind_dot:
  "CHR ''.'' \<notin> set n \<Longrightarrow> rfind (X @ CHR ''/'' # n) CHR ''.'' < int (length X)"
proof (cases "CHR ''.'' \<in> set X")
  case True
  assume n: "CHR ''.'' \<notin> set n"
  then have "takeWhile (\<lambda>x. x \<noteq> CHR ''.'') (rev n @ CHR ''/'' # rev X)
      = rev n @ CHR ''/'' # takeWhile (\<lambda>x. x \<noteq> CHR ''.'') (rev X)"
    by (simp add: takeWhile_notin)
  with True n show ?thesis by (simp add: rfind_def rfind_from_eq)
next
  case False
  assume "CHR ''.'' \<notin> set n"
  with False show ?thesis by (simp add: rfind_def rfind_from_eq)
qed

lemma splitext_plain:
  "CHR ''/'' \<notin> set n \<Longrightarrow> CHR ''.'' \<notin> set n \<Longrightarrow> splitext (X @ CHR ''/'' # n) = (X @ CHR ''/'' # n, [])"
  using rfind_dot [of n X] rfind_sep [of n X]
  by (simp add: splitext_def Let_def)

lemma dropWhile_notin:
  "c \<notin> set xs \<Longrightarrow> dropWhile (\<lambda>x. x \<noteq> c) (xs @ c # ys) = c # ys"
  by (induction xs) auto

lemma dir_name_append: "CHR ''/'' \<notin> set n \<Longrightarrow> dir_name (X @ CHR ''/'' # n) = X"
  by (simp add: dir_name_def dropWhile_notin)

subsection \<open>Timestamps\<close>

text \<open>
  Padded decimal fields compare as the numbers do, so the formatted timestamps are in
  the order of the readings, and each has the shape of the format.
\<close>

lemma zero_pad_0 [simp]: "n = 0 \<Longrightarrow> zero_pad 0 n = []"
  by (simp add: zero_pad.simps(1))

lemma digit_char_less: "a mod 10 < b mod 10 \<Longrightarrow> digit_char a < digit_char b"
  apply (simp add: digit_char_def less_char_def)
  done

lemma list_less_append: "(u :: string) < v \<Longrightarrow> length v \<le> length u \<Longrightarrow> u @ x < v @ y"
  unfolding list_less_def by (rule lexord_sufI)

lemma length_zero_pad: "n < 10 ^ k \<Longrightarrow> length (zero_pad k n) = k"
proof (induction k arbitrary: n)
  case 0
  then show ?case by simp
next
  case (Suc k)
  then have "n div 10 < 10 ^ k" by (simp add: less_mult_imp_div_less mult.commute)
  with Suc.IH show ?case by simp
qed

lemma list_le_same_prefix: "(x :: string) \<le> y \<Longrightarrow> u @ x \<le> u @ y"
  by (induction u) auto

lemma zero_pad_less: "a < b \<Longrightarrow> b < 10 ^ k \<Longrightarrow> zero_pad k a < zero_pad k b"
proof (induction k arbitrary: a b)
  case 0
  then show ?case by simp
next
  case (Suc k)
  from Suc.prems have "a < 10 ^ Suc k" by linarith
  then have ak: "a div 10 < 10 ^ k" by (simp add: less_mult_imp_div_less mult.commute)
  from Suc.prems(2) have bk: "b div 10 < 10 ^ k"
    by (simp add: less_mult_imp_div_less mult.commute)
  show ?case
  proof (cases "a div 10 < b div 10")
    case True
    from Suc.IH [OF True bk] have "zero_pad k (a div 10) < zero_pad k (b div 10)" .
    moreover have "length (zero_pad k (b div 10)) \<le> length (zero_pad k (a div 10))"
      using length_zero_pad [OF ak] length_zero_pad [OF bk] by simp
    ultimately show ?thesis by (simp add: list_less_append)
  next
    case False
    moreover from Suc.prems(1) have "a div 10 \<le> b div 10" by (simp add: div_le_mono)
    ultimately have eq: "a div 10 = b div 10" by simp
    have "a = a div 10 * 10 + a mod 10" "b = b div 10 * 10 + b mod 10" by simp_all
    with eq Suc.prems(1) have lt: "a mod 10 < b mod 10" by linarith
    from digit_char_less [OF lt] have "[digit_char a] < [digit_char b]" by simp
    then have "zero_pad k (b div 10) @ [digit_char a] < zero_pad k (b div 10) @ [digit_char b]"
      unfolding list_less_def by (rule lexord_append_leftI)
    with eq show ?thesis by simp
  qed
qed

lemma zero_pad_2: "n < 100 \<Longrightarrow> zero_pad 2 n = [digit_char (n div 10), digit_char n]"
proof -
  assume n: "n < 100"
  have "zero_pad 2 n = zero_pad (Suc (Suc 0)) n" by (simp only: numeral_2_eq_2)
  also have "\<dots> = zero_pad 0 (n div 10 div 10) @ [digit_char (n div 10), digit_char n]" by simp
  also from n have "n div 10 div 10 = 0" by simp
  finally show ?thesis by simp
qed

lemma zero_pad_4:
  "n < 10000 \<Longrightarrow>
   zero_pad 4 n = [digit_char (n div 1000), digit_char (n div 100), digit_char (n div 10), digit_char n]"
proof -
  assume n: "n < 10000"
  have "(4 :: nat) = Suc (Suc (Suc (Suc 0)))" by simp
  then have "zero_pad 4 n = zero_pad (Suc (Suc (Suc (Suc 0)))) n" by (simp only:)
  also have "\<dots> = zero_pad 0 (n div 10 div 10 div 10 div 10)
      @ [digit_char (n div 10 div 10 div 10), digit_char (n div 10 div 10), digit_char (n div 10),
         digit_char n]" by simp
  also from n have "n div 10 div 10 div 10 div 10 = 0" by simp
  also have "n div 10 div 10 div 10 = n div 1000" by (simp add: div_mult2_eq)
  also have "n div 10 div 10 = n div 100" by (simp add: div_mult2_eq)
  finally show ?thesis by simp
qed

lemma is_digit_digit_char [simp]: "is_digit (digit_char d)"
  by (simp add: is_digit_def digit_char_def)

lemma field_le:
  assumes "a < 10 ^ k" "b < 10 ^ k" "a < b \<or> (a = b \<and> (x :: string) \<le> y)"
  shows "zero_pad k a @ x \<le> zero_pad k b @ y"
proof (cases "a < b")
  case True
  from zero_pad_less [OF True assms(2)] length_zero_pad [OF assms(1)] length_zero_pad [OF assms(2)]
  have "zero_pad k a @ x < zero_pad k b @ y" by (simp add: list_less_append)
  then show ?thesis by simp
next
  case False
  with assms(3) show ?thesis by (simp add: list_le_same_prefix)
qed

lemma strftime_iso_mono:
  assumes a: "valid_datetime a" and b: "valid_datetime b" and le: "datetime_le a b"
  shows "strftime_iso a \<le> strftime_iso b"
proof -
  from a have ba: "year a < 10 ^ 4" "month a < 10 ^ 2" "day a < 10 ^ 2" "hour a < 10 ^ 2"
      "minute a < 10 ^ 2" "second a < 10 ^ 2"
    by (simp_all add: valid_datetime_def)
  from b have bb: "year b < 10 ^ 4" "month b < 10 ^ 2" "day b < 10 ^ 2" "hour b < 10 ^ 2"
      "minute b < 10 ^ 2" "second b < 10 ^ 2"
    by (simp_all add: valid_datetime_def)
  have s: "zero_pad 2 (second a) @ ''Z'' \<le> zero_pad 2 (second b) @ ''Z''"
    if "second a \<le> second b"
    using that by (intro field_le [OF ba(6) bb(6)]) auto
  have m: "zero_pad 2 (minute a) @ '':'' @ zero_pad 2 (second a) @ ''Z''
         \<le> zero_pad 2 (minute b) @ '':'' @ zero_pad 2 (second b) @ ''Z''"
    if "[minute a, second a] \<le> [minute b, second b]"
    using that s by (intro field_le [OF ba(5) bb(5)]) auto
  have h: "zero_pad 2 (hour a) @ '':'' @ zero_pad 2 (minute a) @ '':'' @ zero_pad 2 (second a) @ ''Z''
         \<le> zero_pad 2 (hour b) @ '':'' @ zero_pad 2 (minute b) @ '':'' @ zero_pad 2 (second b) @ ''Z''"
    if "[hour a, minute a, second a] \<le> [hour b, minute b, second b]"
    using that m by (intro field_le [OF ba(4) bb(4)]) auto
  have d: "zero_pad 2 (day a) @ ''T'' @ zero_pad 2 (hour a) @ '':'' @ zero_pad 2 (minute a) @ '':''
            @ zero_pad 2 (second a) @ ''Z''
         \<le> zero_pad 2 (day b) @ ''T'' @ zero_pad 2 (hour b) @ '':'' @ zero_pad 2 (minute b) @ '':''
            @ zero_pad 2 (second b) @ ''Z''"
    if "[day a, hour a, minute a, second a] \<le> [day b, hour b, minute b, second b]"
    using that h by (intro field_le [OF ba(3) bb(3)]) auto
  have mo: "zero_pad 2 (month a) @ ''-'' @ zero_pad 2 (day a) @ ''T'' @ zero_pad 2 (hour a) @ '':''
            @ zero_pad 2 (minute a) @ '':'' @ zero_pad 2 (second a) @ ''Z''
         \<le> zero_pad 2 (month b) @ ''-'' @ zero_pad 2 (day b) @ ''T'' @ zero_pad 2 (hour b) @ '':''
            @ zero_pad 2 (minute b) @ '':'' @ zero_pad 2 (second b) @ ''Z''"
    if "[month a, day a, hour a, minute a, second a] \<le> [month b, day b, hour b, minute b, second b]"
    using that d by (intro field_le [OF ba(2) bb(2)]) auto
  have "zero_pad 4 (year a) @ ''-'' @ zero_pad 2 (month a) @ ''-'' @ zero_pad 2 (day a) @ ''T''
            @ zero_pad 2 (hour a) @ '':'' @ zero_pad 2 (minute a) @ '':'' @ zero_pad 2 (second a) @ ''Z''
         \<le> zero_pad 4 (year b) @ ''-'' @ zero_pad 2 (month b) @ ''-'' @ zero_pad 2 (day b) @ ''T''
            @ zero_pad 2 (hour b) @ '':'' @ zero_pad 2 (minute b) @ '':'' @ zero_pad 2 (second b) @ ''Z''"
    using le mo unfolding datetime_le_def by (intro field_le [OF ba(1) bb(1)]) auto
  then show ?thesis
    by (simp add: strftime_iso_def strftime_date_def)
qed

lemma strftime_iso_format: "valid_datetime t \<Longrightarrow> iso_format (strftime_iso t)"
  by (simp add: valid_datetime_def iso_format_def strftime_iso_def strftime_date_def
        zero_pad_2 zero_pad_4)

text \<open>
  The order of two formatted readings is the order of the readings: the format is
  injective on valid readings.
\<close>

lemma zero_pad_inj:
  assumes "a < 10 ^ k" "b < 10 ^ k" "zero_pad k a @ x = zero_pad k b @ y"
  shows "a = b \<and> x = y"
proof -
  from length_zero_pad [OF assms(1)] length_zero_pad [OF assms(2)] assms(3)
  have z: "zero_pad k a = zero_pad k b" and xy: "x = y" by simp_all
  have "a = b"
  proof (rule ccontr)
    assume "a \<noteq> b"
    then consider "a < b" | "b < a" by linarith
    then show False
    proof cases
      case 1
      from zero_pad_less [OF 1 assms(2)] z show False by simp
    next
      case 2
      from zero_pad_less [OF 2 assms(1)] z show False by simp
    qed
  qed
  with xy show ?thesis by simp
qed

lemma strftime_iso_inj:
  assumes a: "valid_datetime a" and b: "valid_datetime b"
    and eq: "strftime_iso a = strftime_iso b"
  shows "[year a, month a, day a, hour a, minute a, second a]
       = [year b, month b, day b, hour b, minute b, second b]"
proof -
  from a have ba: "year a < 10 ^ 4" "month a < 10 ^ 2" "day a < 10 ^ 2" "hour a < 10 ^ 2"
      "minute a < 10 ^ 2" "second a < 10 ^ 2"
    by (simp_all add: valid_datetime_def)
  from b have bb: "year b < 10 ^ 4" "month b < 10 ^ 2" "day b < 10 ^ 2" "hour b < 10 ^ 2"
      "minute b < 10 ^ 2" "second b < 10 ^ 2"
    by (simp_all add: valid_datetime_def)
  from eq have e0: "zero_pad 4 (year a) @ ''-'' @ zero_pad 2 (month a) @ ''-'' @ zero_pad 2 (day a) @ ''T''
            @ zero_pad 2 (hour a) @ '':'' @ zero_pad 2 (minute a) @ '':'' @ zero_pad 2 (second a) @ ''Z''
         = zero_pad 4 (year b) @ ''-'' @ zero_pad 2 (month b) @ ''-'' @ zero_pad 2 (day b) @ ''T''
            @ zero_pad 2 (hour b) @ '':'' @ zero_pad 2 (minute b) @ '':'' @ zero_pad 2 (second b) @ ''Z''"
    by (simp add: strftime_iso_def strftime_date_def)
  note y = zero_pad_inj [OF ba(1) bb(1) e0]
  from y have e1: "zero_pad 2 (month a) @ ''-'' @ zero_pad 2 (day a) @ ''T''
            @ zero_pad 2 (hour a) @ '':'' @ zero_pad 2 (minute a) @ '':'' @ zero_pad 2 (second a) @ ''Z''
         = zero_pad 2 (month b) @ ''-'' @ zero_pad 2 (day b) @ ''T''
            @ zero_pad 2 (hour b) @ '':'' @ zero_pad 2 (minute b) @ '':'' @ zero_pad 2 (second b) @ ''Z''"
    by simp
  note mo = zero_pad_inj [OF ba(2) bb(2) e1]
  from mo have e2: "zero_pad 2 (day a) @ ''T''
            @ zero_pad 2 (hour a) @ '':'' @ zero_pad 2 (minute a) @ '':'' @ zero_pad 2 (second a) @ ''Z''
         = zero_pad 2 (day b) @ ''T''
            @ zero_pad 2 (hour b) @ '':'' @ zero_pad 2 (minute b) @ '':'' @ zero_pad 2 (second b) @ ''Z''"
    by simp
  note d = zero_pad_inj [OF ba(3) bb(3) e2]
  from d have e3: "zero_pad 2 (hour a) @ '':'' @ zero_pad 2 (minute a) @ '':'' @ zero_pad 2 (second a) @ ''Z''
         = zero_pad 2 (hour b) @ '':'' @ zero_pad 2 (minute b) @ '':'' @ zero_pad 2 (second b) @ ''Z''"
    by simp
  note h = zero_pad_inj [OF ba(4) bb(4) e3]
  from h have e4: "zero_pad 2 (minute a) @ '':'' @ zero_pad 2 (second a) @ ''Z''
         = zero_pad 2 (minute b) @ '':'' @ zero_pad 2 (second b) @ ''Z''"
    by simp
  note m = zero_pad_inj [OF ba(5) bb(5) e4]
  from m have e5: "zero_pad 2 (second a) @ ''Z'' = zero_pad 2 (second b) @ ''Z''"
    by simp
  note s = zero_pad_inj [OF ba(6) bb(6) e5]
  from y mo d h m s show ?thesis by simp
qed

lemma strftime_iso_le_iff:
  assumes a: "valid_datetime a" and b: "valid_datetime b"
  shows "strftime_iso a \<le> strftime_iso b \<longleftrightarrow> datetime_le a b"
proof
  assume "datetime_le a b"
  then show "strftime_iso a \<le> strftime_iso b" by (rule strftime_iso_mono [OF a b])
next
  assume le: "strftime_iso a \<le> strftime_iso b"
  show "datetime_le a b"
  proof (rule ccontr)
    assume n: "\<not> datetime_le a b"
    then have ba: "datetime_le b a" by (auto simp: datetime_le_def)
    from strftime_iso_mono [OF b a ba] le have "strftime_iso a = strftime_iso b" by simp
    from strftime_iso_inj [OF a b this] n show False by (simp add: datetime_le_def)
  qed
qed

subsection \<open>The files and folders of a request\<close>

text \<open>
  For a task id that is a plain name the destination of a resolver is the task id inside
  its source folder, and the date in the folder names is a plain name too, so that the
  three folders of a request are three different strings.
\<close>

lemma type_name_no_dot: "CHR ''.'' \<notin> set (type_name t)"
  by (cases t) simp_all

lemma private_dir_parts:
  "parse_anchor folder = [] \<Longrightarrow> parts (private_dir_of env request folder) \<noteq> []"
  by (simp add: private_dir_of_def truediv_def parse_path_def parse_anchor_def Let_def)

lemma source_folder_anchor [simp]:
  "parse_anchor (os_path_join ''source'' (''face/'' @ d)) = []"
  "parse_anchor (os_path_join ''source'' (''swap/'' @ d)) = []"
  "parse_anchor (''output/'' @ d) = []"
  by (simp_all add: os_path_join_def parse_anchor_def)

lemma resolver_dest_plain:
  assumes "plain_name tid" and "parse_anchor (os_path_join ''source'' folder) = []"
  shows "resolver_dest env request folder (Some tid) w
       = str_path (private_dir_of env request (os_path_join ''source'' folder)) @ CHR ''/'' # tid"
proof -
  from assms(1) have "tid \<noteq> []" by (simp add: plain_name_def)
  then show ?thesis
    using str_path_truediv_plain [OF assms(1) private_dir_parts [OF assms(2)]]
    by (simp add: resolver_dest_def)
qed

lemma plain_file_parts:
  assumes "plain_name tid"
  shows "stem (file_name (X @ CHR ''/'' # tid)) = tid"
    and "dir_name (X @ CHR ''/'' # tid) = X"
    and "stem (file_name (X @ CHR ''/'' # tid @ CHR ''.'' # type_name t)) = tid"
    and "dir_name (X @ CHR ''/'' # tid @ CHR ''.'' # type_name t) = X"
proof -
  from assms have s: "CHR ''/'' \<notin> set tid" and d: "CHR ''.'' \<notin> set tid"
    by (simp_all add: plain_name_def)
  show "stem (file_name (X @ CHR ''/'' # tid)) = tid"
    using s d by (simp add: file_name_append stem_plain)
  show "dir_name (X @ CHR ''/'' # tid) = X"
    using s by (simp add: dir_name_append)
  have n: "CHR ''/'' \<notin> set (tid @ CHR ''.'' # type_name t)"
    using s type_name_no_sep [of t] by simp
  show "stem (file_name (X @ CHR ''/'' # tid @ CHR ''.'' # type_name t)) = tid"
    unfolding file_name_append [OF n] by (rule stem_ext [OF d])
  show "dir_name (X @ CHR ''/'' # tid @ CHR ''.'' # type_name t) = X"
    by (rule dir_name_append [OF n])
qed

lemma resolver_writes_plain:
  assumes res: "download_image_if_needed env request image_source folder (Some tid) w = (r, w')"
    and plain: "plain_name tid"
    and anchor: "parse_anchor (os_path_join ''source'' folder) = []"
    and X: "str_path (private_dir_of env request (os_path_join ''source'' folder)) \<in> set folders"
  shows "only_events (keyed tid folders) w w'"
proof -
  let ?X = "str_path (private_dir_of env request (os_path_join ''source'' folder))"
  have dest: "?X @ CHR ''/'' # tid = resolver_dest env request folder (Some tid) w"
    by (rule resolver_dest_plain [OF plain anchor, symmetric])
  from plain have s: "CHR ''/'' \<notin> set tid" and d: "CHR ''.'' \<notin> set tid"
    by (simp_all add: plain_name_def)
  have sp: "fst (splitext (?X @ CHR ''/'' # tid)) = ?X @ CHR ''/'' # tid"
    by (simp add: splitext_plain [OF s d])
  show ?thesis
  proof (rule resolver_events [OF res dest])
    show "keyed tid folders Uuid4" by (simp add: keyed_def)
    show "keyed tid folders (Mkdir d)" for d by (simp add: keyed_def)
    show "keyed tid folders (B64Decode s)" for s by (simp add: keyed_def)
    show "keyed tid folders (HttpGet u)" for u by (simp add: keyed_def)
    show "keyed tid folders (LogWarning s)" for s by (simp add: keyed_def)
    show "keyed tid folders (FileWrite (?X @ CHR ''/'' # tid) b)" for b
      using plain_file_parts(1,2) [OF plain, of ?X] X by (simp add: keyed_def)
    show "keyed tid folders (FileWrite ((?X @ CHR ''/'' # tid) @ ''.'' @ type_name t) b)" for t b
      using plain_file_parts(3,4) [OF plain, of ?X t] X by (simp add: keyed_def)
    show "keyed tid folders
            (Rename (?X @ CHR ''/'' # tid) (fst (splitext (?X @ CHR ''/'' # tid)) @ ''.'' @ type_name t))"
      for t
      unfolding sp using plain_file_parts(3,4) [OF plain, of ?X t] X by (simp add: keyed_def)
  qed
qed

lemma zero_pad_digits: "\<forall>c \<in> set (zero_pad k n). is_digit c"
proof (induction k n rule: zero_pad.induct)
  case (1 n)
  then show ?case by (subst zero_pad.simps(1)) auto
next
  case (2 k n)
  then show ?case by simp
qed

lemma strftime_date_plain: "plain_name (strftime_date t)"
  using zero_pad_digits [of 4 "year t"] zero_pad_digits [of 2 "month t"]
    zero_pad_digits [of 2 "day t"]
  by (auto simp: plain_name_def strftime_date_def is_digit_def)

lemma split_sep_append: "c \<notin> set a \<Longrightarrow> split_sep c (a @ c # b) = a # split_sep c b"
  by (induction a) auto

lemma join_sep_append:
  "xs \<noteq> [] \<Longrightarrow> ys \<noteq> [] \<Longrightarrow> join_sep (xs @ ys) = join_sep xs @ CHR ''/'' # join_sep ys"
proof (induction xs rule: join_sep.induct)
  case 1
  then show ?case by simp
next
  case (2 c)
  then show ?case by (cases ys) simp_all
next
  case (3 c d cs)
  then show ?case by simp
qed

lemma parse_folder:
  assumes "plain_name D"
  shows "parse_path (os_path_join ''source'' (''face/'' @ D)) = Path [] [''source'', ''face'', D]"
    and "parse_path (os_path_join ''source'' (''swap/'' @ D)) = Path [] [''source'', ''swap'', D]"
    and "parse_path (''output/'' @ D) = Path [] [''output'', D]"
proof -
  from assms have s: "split_sep CHR ''/'' D = [D]" and n: "D \<noteq> []" "D \<noteq> ''.''"
    by (auto simp: plain_name_def split_sep_plain)
  have f: "os_path_join ''source'' (''face/'' @ D) = ''source'' @ CHR ''/'' # ''face'' @ CHR ''/'' # D"
    and w: "os_path_join ''source'' (''swap/'' @ D) = ''source'' @ CHR ''/'' # ''swap'' @ CHR ''/'' # D"
    and o: "''output/'' @ D = ''output'' @ CHR ''/'' # D"
    by (simp_all add: os_path_join_def)
  have a: "parse_anchor (''source'' @ x) = []" "parse_anchor (''output'' @ x) = []" for x
    by (simp_all add: parse_anchor_def)
  show "parse_path (os_path_join ''source'' (''face/'' @ D)) = Path [] [''source'', ''face'', D]"
    unfolding f parse_path_def a using s n by (simp add: split_sep_append)
  show "parse_path (os_path_join ''source'' (''swap/'' @ D)) = Path [] [''source'', ''swap'', D]"
    unfolding w parse_path_def a using s n by (simp add: split_sep_append)
  show "parse_path (''output/'' @ D) = Path [] [''output'', D]"
    unfolding o parse_path_def a using s n by (simp add: split_sep_append)
qed

lemma private_dir_parsed:
  assumes "parse_path folder = Path [] fs"
  shows "private_dir_of env request folder
       = Path (anchor (private_outdir env request)) (parts (private_outdir env request) @ ''roop'' # fs)"
proof -
  have "plain_name ''roop''" by (simp add: plain_name_def)
  then have "parse_path ''roop'' = Path [] [''roop'']" by (rule parse_path_plain)
  with assms show ?thesis by (simp add: private_dir_of_def truediv_def)
qed

lemma private_dir_str:
  assumes "parse_path folder = Path [] fs" and "fs \<noteq> []"
  shows "str_path (private_dir_of env request folder)
       = str_path (truediv (private_outdir env request) ''roop'') @ CHR ''/'' # join_sep fs"
proof -
  have "plain_name ''roop''" by (simp add: plain_name_def)
  then have r: "parse_path ''roop'' = Path [] [''roop'']" by (rule parse_path_plain)
  have "join_sep ((parts (private_outdir env request) @ [''roop'']) @ fs)
      = join_sep (parts (private_outdir env request) @ [''roop'']) @ CHR ''/'' # join_sep fs"
    by (rule join_sep_append) (simp_all add: assms(2))
  then show ?thesis
    unfolding private_dir_parsed [OF assms(1)]
    by (simp add: str_path_def truediv_def r)
qed

lemma folder_strings:
  assumes "plain_name D"
  shows "str_path (private_dir_of env request (os_path_join ''source'' (''face/'' @ D)))
       = str_path (truediv (private_outdir env request) ''roop'') @ ''/source/face/'' @ D"
    and "str_path (private_dir_of env request (os_path_join ''source'' (''swap/'' @ D)))
       = str_path (truediv (private_outdir env request) ''roop'') @ ''/source/swap/'' @ D"
    and "str_path (private_dir_of env request (''output/'' @ D))
       = str_path (truediv (private_outdir env request) ''roop'') @ ''/output/'' @ D"
proof -
  note f = private_dir_str [OF parse_folder(1) [OF assms] list.distinct(2)]
  note w = private_dir_str [OF parse_folder(2) [OF assms] list.distinct(2)]
  note o = private_dir_str [OF parse_folder(3) [OF assms] list.distinct(2)]
  show "str_path (private_dir_of env request (os_path_join ''source'' (''face/'' @ D)))
       = str_path (truediv (private_outdir env request) ''roop'') @ ''/source/face/'' @ D"
    unfolding f by simp
  show "str_path (private_dir_of env request (os_path_join ''source'' (''swap/'' @ D)))
       = str_path (truediv (private_outdir env request) ''roop'') @ ''/source/swap/'' @ D"
    unfolding w by simp
  show "str_path (private_dir_of env request (''output/'' @ D))
       = str_path (truediv (private_outdir env request) ''roop'') @ ''/output/'' @ D"
    unfolding o by simp
qed

lemma request_folders_distinct: "distinct (request_folders env request w)"
  unfolding request_folders_def Let_def folder_strings [OF strftime_date_plain]
  by simp









lemma str_path_truediv_file:
  "CHR ''/'' \<notin> set s \<Longrightarrow> s \<noteq> [] \<Longrightarrow> s \<noteq> ''.'' \<Longrightarrow> parts d \<noteq> [] \<Longrightarrow>
   str_path (truediv d s) = str_path d @ CHR ''/'' # s"
  by (simp add: truediv_def parse_path_def split_sep_plain parse_anchor_plain str_path_def
        join_sep_snoc)

lemma output_path_plain:
  assumes "plain_name tid" and "parse_anchor folder = []"
  shows "str_path (truediv (private_dir_of env request folder) (tid @ ''.png''))
       = str_path (private_dir_of env request folder) @ CHR ''/'' # tid @ ''.png''"
  using assms(1)
  by (intro str_path_truediv_file private_dir_parts [OF assms(2)]) (auto simp: plain_name_def)

lemma output_path_keyed:
  assumes "plain_name tid"
  shows "stem (file_name (X @ CHR ''/'' # tid @ ''.png'')) = tid"
    and "dir_name (X @ CHR ''/'' # tid @ ''.png'') = X"
proof -
  from assms have s: "CHR ''/'' \<notin> set tid" and d: "CHR ''.'' \<notin> set tid"
    by (simp_all add: plain_name_def)
  have n: "CHR ''/'' \<notin> set (tid @ ''.png'')" using s by simp
  show "stem (file_name (X @ CHR ''/'' # tid @ ''.png'')) = tid"
    unfolding file_name_append [OF n] by (rule stem_ext [OF d])
  show "dir_name (X @ CHR ''/'' # tid @ ''.png'') = X"
    by (rule dir_name_append [OF n])
qed

subsection \<open>The request handler\<close>

text \<open>What a successful run of the handler went through, step by step.\<close>

lemma run_success:
  assumes "run_roop_on_single_image env request roop_options w = (Inr response, w')"
  shows "\<exists>t w1 face_image w2 swap_path w3 face w4 target w5 result w6 img out w7 w8 t'.
    datetime_now env w = (t, w1)
    \<and> download_image_if_needed env request (source_image roop_options)
         (''face/'' @ strftime_date t) (Some (RoopOptions.task_id roop_options)) w1 = (Inr face_image, w2)
    \<and> download_image_if_needed env request (RoopOptions.swap_image roop_options)
         (''swap/'' @ strftime_date t) (Some (RoopOptions.task_id roop_options)) w2 = (Inr swap_path, w3)
    \<and> Image_open env face_image w3 = (Inr face, w4)
    \<and> Image_open env swap_path w4 = (Inr target, w5)
    \<and> call_swap_face env face target (model roop_options) {face_index roop_options}
         (upscale_options env roop_options) w5 = (Inr result, w6)
    \<and> image result = Some img
    \<and> get_private_path env request (''output/'' @ strftime_date t)
         (RoopOptions.task_id roop_options @ ''.png'') w6 = (Inr out, w7)
    \<and> Image_save env img (str_path out) w7 = (Inr (), w8)
    \<and> datetime_now env w8 = (t', w')
    \<and> response = \<lparr> RoopResponse.task_id = RoopOptions.task_id roop_options,
                    RoopResponse.encoded_image = pil_image_to_base64 env img,
                    RoopResponse.start_time = strftime_iso t,
                    RoopResponse.finish_time = strftime_iso t' \<rparr>"
  using assms
  by (auto simp: run_roop_on_single_image_def Let_def split: prod.splits sum.splits option.splits)




text \<open>
  C8, as the code has it. The response of a successful request has the \<open>task_id\<close> of
  the request. Its \<open>encoded_image\<close> is \<open>data:image/png;base64,\<close> followed by the base64
  text of the PNG encoding of the image that the swap operation returned for the two
  images of this request, as the resolvers delivered them and \<open>Image.open\<close> read them.
  \<open>start_time\<close> and \<open>finish_time\<close> are the first and the second reading of the clock
  in the format \<open>%Y-%m-%dT%H:%M:%SZ\<close>, both of the shape \<open>YYYY-MM-DDTHH:MM:SSZ\<close>. The
  first reading is the first thing the handler does and the second the last, right after
  the result was saved at the output path, and nothing in between reads the clock. The
  handler takes what the clock says: \<open>finish_time\<close> is not before \<open>start_time\<close>, as
  strings, exactly when the second reading is not before the first.
\<close>

theorem successful_response:
  assumes run: "run_roop_on_single_image env request roop_options w = (Inr response, w')"
    and v1: "valid_datetime (utc_clock env (ticks w))"
    and v2: "valid_datetime (utc_clock env (Suc (ticks w)))"
  shows "RoopResponse.task_id response = RoopOptions.task_id roop_options
       \<and> (\<exists>face_image w2 swap_path w3 face w4 target w5 result img.
             download_image_if_needed env request (source_image roop_options)
                 (''face/'' @ strftime_date (utc_clock env (ticks w)))
                 (Some (RoopOptions.task_id roop_options)) (snd (datetime_now env w))
               = (Inr face_image, w2)
             \<and> download_image_if_needed env request (RoopOptions.swap_image roop_options)
                 (''swap/'' @ strftime_date (utc_clock env (ticks w)))
                 (Some (RoopOptions.task_id roop_options)) w2
               = (Inr swap_path, w3)
             \<and> Image_open env face_image w3 = (Inr face, w4)
             \<and> Image_open env swap_path w4 = (Inr target, w5)
             \<and> swap_face env face target (model roop_options) {face_index roop_options}
                 (upscale_options env roop_options) = Inr result
             \<and> image result = Some img
             \<and> RoopResponse.encoded_image response
                 = ''data:image/png;base64,'' @ b64encode env (png_encode env img))
       \<and> start_time response = strftime_iso (utc_clock env (ticks w))
       \<and> finish_time response = strftime_iso (utc_clock env (Suc (ticks w)))
       \<and> iso_format (start_time response) \<and> iso_format (finish_time response)
       \<and> (start_time response \<le> finish_time response
            \<longleftrightarrow> datetime_le (utc_clock env (ticks w)) (utc_clock env (Suc (ticks w))))
       \<and> (\<exists>es. effects w w'
                  = Now # es
                    @ [ImageSave (str_path (truediv
                          (private_dir_of env request
                             (''output/'' @ strftime_date (utc_clock env (ticks w))))
                          (RoopOptions.task_id roop_options @ ''.png''))), Now]
                \<and> Now \<notin> set es \<and> (\<forall>q. ImageSave q \<notin> set es))"
proof -
  let ?P = "\<lambda>e. resolver_event e \<or> (\<exists>p. e = ImageOpen p) \<or> (\<exists>m. e = SwapFace m)"
  have P: "\<And>e. resolver_event e \<Longrightarrow> ?P e" by simp
  from run_success [OF run] obtain t w1 face_image w2 swap_path w3 face w4 target w5 result w6
      img out w7 w8 t' where
    now: "datetime_now env w = (t, w1)"
    and r1: "download_image_if_needed env request (source_image roop_options)
         (''face/'' @ strftime_date t) (Some (RoopOptions.task_id roop_options)) w1 = (Inr face_image, w2)"
    and r2: "download_image_if_needed env request (RoopOptions.swap_image roop_options)
         (''swap/'' @ strftime_date t) (Some (RoopOptions.task_id roop_options)) w2 = (Inr swap_path, w3)"
    and o1: "Image_open env face_image w3 = (Inr face, w4)"
    and o2: "Image_open env swap_path w4 = (Inr target, w5)"
    and sw: "call_swap_face env face target (model roop_options) {face_index roop_options}
         (upscale_options env roop_options) w5 = (Inr result, w6)"
    and img: "image result = Some img"
    and gp: "get_private_path env request (''output/'' @ strftime_date t)
         (RoopOptions.task_id roop_options @ ''.png'') w6 = (Inr out, w7)"
    and sv: "Image_save env img (str_path out) w7 = (Inr (), w8)"
    and fin: "datetime_now env w8 = (t', w')"
    and resp: "response = \<lparr> RoopResponse.task_id = RoopOptions.task_id roop_options,
                    RoopResponse.encoded_image = pil_image_to_base64 env img,
                    RoopResponse.start_time = strftime_iso t,
                    RoopResponse.finish_time = strftime_iso t' \<rparr>"
    by blast
  from now have t: "t = utc_clock env (ticks w)" and k1: "ticks w1 = Suc (ticks w)"
    and tr1: "trace w1 = trace w @ [Now]" and w1: "w1 = snd (datetime_now env w)"
    by (auto simp: datetime_now_def log_event_def)
  have k8: "ticks w8 = ticks w1"
    using resolver_ticks [OF r1] resolver_ticks [OF r2] o1 o2 sw get_private_path_ticks [OF gp] sv
    by (auto simp: Image_open_def call_swap_face_def Image_save_def log_event_def Let_def
          split: option.splits if_splits)
  from fin k8 k1 have t': "t' = utc_clock env (Suc (ticks w))"
    and tr9: "trace w' = trace w8 @ [Now]"
    by (auto simp: datetime_now_def log_event_def)
  have e3: "only_events ?P w1 w3"
    by (rule only_events_trans [OF only_events_mono [OF resolver_only_resolver_events [OF r1] P]
          only_events_mono [OF resolver_only_resolver_events [OF r2] P]])
  have e4: "only_events ?P w1 w4"
    by (rule only_events_log [OF e3 _ Image_open_trace [OF o1]]) simp
  have e5: "only_events ?P w1 w5"
    by (rule only_events_log [OF e4 _ Image_open_trace [OF o2]]) simp
  have e6: "only_events ?P w1 w6"
    using call_swap_face_trace [OF sw] by (intro only_events_log [OF e5]) auto
  have e7: "only_events ?P w1 w7"
    by (rule only_events_trans [OF e6 only_events_mono [OF get_private_path_only_mkdir [OF gp] P]])
  then obtain es where es: "trace w7 = trace w1 @ es" "\<forall>e \<in> set es. ?P e"
    by (auto simp: only_events_def)
  from sv have tr8: "trace w8 = trace w7 @ [ImageSave (str_path out)]"
    by (auto simp: Image_save_def Let_def split: if_splits)
  from get_private_path_result [OF gp] t
  have out: "out = truediv (private_dir_of env request
                             (''output/'' @ strftime_date (utc_clock env (ticks w))))
                          (RoopOptions.task_id roop_options @ ''.png'')"
    by simp
  have order: "\<exists>es. effects w w'
                  = Now # es
                    @ [ImageSave (str_path (truediv
                          (private_dir_of env request
                             (''output/'' @ strftime_date (utc_clock env (ticks w))))
                          (RoopOptions.task_id roop_options @ ''.png''))), Now]
                \<and> Now \<notin> set es \<and> (\<forall>q. ImageSave q \<notin> set es)"
  proof (intro exI conjI)
    show "effects w w' = Now # es @ [ImageSave (str_path (truediv
                          (private_dir_of env request
                             (''output/'' @ strftime_date (utc_clock env (ticks w))))
                          (RoopOptions.task_id roop_options @ ''.png''))), Now]"
      using tr1 es(1) tr8 tr9 unfolding out by (simp add: effects_def)
    show "Now \<notin> set es" using es(2) by auto
    show "\<forall>q. ImageSave q \<notin> set es" using es(2) by auto
  qed
  from call_swap_face_trace [OF sw] have swap:
    "swap_face env face target (model roop_options) {face_index roop_options}
               (upscale_options env roop_options) = Inr result" by simp
  have encv: "RoopResponse.encoded_image response
                 = ''data:image/png;base64,'' @ b64encode env (png_encode env img)"
    using resp by (simp add: pil_image_to_base64_def Let_def)
  have enc: "\<exists>face_image w2 swap_path w3 face w4 target w5 result img.
             download_image_if_needed env request (source_image roop_options)
                 (''face/'' @ strftime_date (utc_clock env (ticks w)))
                 (Some (RoopOptions.task_id roop_options)) (snd (datetime_now env w))
               = (Inr face_image, w2)
             \<and> download_image_if_needed env request (RoopOptions.swap_image roop_options)
                 (''swap/'' @ strftime_date (utc_clock env (ticks w)))
                 (Some (RoopOptions.task_id roop_options)) w2
               = (Inr swap_path, w3)
             \<and> Image_open env face_image w3 = (Inr face, w4)
             \<and> Image_open env swap_path w4 = (Inr target, w5)
             \<and> swap_face env face target (model roop_options) {face_index roop_options}
                 (upscale_options env roop_options) = Inr result
             \<and> image result = Some img
             \<and> RoopResponse.encoded_image response
                 = ''data:image/png;base64,'' @ b64encode env (png_encode env img)"
    using r1 [unfolded t w1] r2 [unfolded t] o1 o2 swap img encv
    by (intro exI conjI)
  have st: "start_time response = strftime_iso (utc_clock env (ticks w))"
    and ft: "finish_time response = strftime_iso (utc_clock env (Suc (ticks w)))"
    and id: "RoopResponse.task_id response = RoopOptions.task_id roop_options"
    using resp t t' by simp_all
  have le: "start_time response \<le> finish_time response
            \<longleftrightarrow> datetime_le (utc_clock env (ticks w)) (utc_clock env (Suc (ticks w)))"
    unfolding st ft by (rule strftime_iso_le_iff [OF v1 v2])
  have f1: "iso_format (start_time response)" unfolding st by (rule strftime_iso_format [OF v1])
  have f2: "iso_format (finish_time response)" unfolding ft by (rule strftime_iso_format [OF v2])
  show ?thesis
    by (rule conjI [OF id conjI [OF enc conjI [OF st conjI [OF ft conjI [OF f1 conjI [OF f2
          conjI [OF le order]]]]]]])
qed

text \<open>The same at the request of the concrete environment, whose clock advances.\<close>

theorem successful_response_witness:
  "fst (run_roop_on_single_image demo_env (Request ''u'') demo_options demo_world)
     = Inr \<lparr> RoopResponse.task_id = ''t1'',
             RoopResponse.encoded_image = ''data:image/png;base64,iVBORw=='',
             RoopResponse.start_time = ''2024-01-02T03:04:05Z'',
             RoopResponse.finish_time = ''2024-01-02T03:04:06Z'' \<rparr>
   \<and> valid_datetime (utc_clock demo_env (ticks demo_world))
   \<and> valid_datetime (utc_clock demo_env (Suc (ticks demo_world)))
   \<and> datetime_le (utc_clock demo_env (ticks demo_world)) (utc_clock demo_env (Suc (ticks demo_world)))
   \<and> ''2024-01-02T03:04:05Z'' \<le> ''2024-01-02T03:04:06Z''"
proof -
  let ?resp = "\<lparr> RoopResponse.task_id = ''t1'',
             RoopResponse.encoded_image = ''data:image/png;base64,iVBORw=='',
             RoopResponse.start_time = ''2024-01-02T03:04:05Z'',
             RoopResponse.finish_time = ''2024-01-02T03:04:06Z'' \<rparr>"
  have run: "fst (run_roop_on_single_image demo_env (Request ''u'') demo_options demo_world) = Inr ?resp"
    by code_simp
  have run': "run_roop_on_single_image demo_env (Request ''u'') demo_options demo_world
      = (Inr ?resp, snd (run_roop_on_single_image demo_env (Request ''u'') demo_options demo_world))"
    unfolding run [symmetric] by (rule surjective_pairing)
  have v1: "valid_datetime (utc_clock demo_env (ticks demo_world))"
    by (simp add: valid_datetime_def demo_env_def demo_world_def)
  have v2: "valid_datetime (utc_clock demo_env (Suc (ticks demo_world)))"
    by (simp add: valid_datetime_def demo_env_def demo_world_def)
  have mono: "datetime_le (utc_clock demo_env (ticks demo_world)) (utc_clock demo_env (Suc (ticks demo_world)))"
    by (simp add: datetime_le_def demo_env_def demo_world_def)
  note r = successful_response [OF run' v1 v2]
  note le = r [THEN conjunct2, THEN conjunct2, THEN conjunct2, THEN conjunct2, THEN conjunct2,
      THEN conjunct2, THEN conjunct1]
  from le mono have "''2024-01-02T03:04:05Z'' \<le> ''2024-01-02T03:04:06Z''"
    by (simp only: RoopResponse.select_convs)
  with run v1 v2 mono show ?thesis by (intro conjI)
qed

text \<open>
  C8, as the specification states it, fails when the clock is set back during the
  request: \<open>datetime.now\<close> reads the wall clock, the request succeeds, and its
  \<open>finish_time\<close> is before its \<open>start_time\<close>.
\<close>

theorem clock_stepped_back_counterexample:
  "fst (run_roop_on_single_image stepped_back_env (Request ''u'') demo_options demo_world)
     = Inr \<lparr> RoopResponse.task_id = ''t1'',
             RoopResponse.encoded_image = ''data:image/png;base64,iVBORw=='',
             RoopResponse.start_time = ''2024-01-02T03:04:05Z'',
             RoopResponse.finish_time = ''2024-01-02T03:04:04Z'' \<rparr>
   \<and> ''2024-01-02T03:04:04Z'' < ''2024-01-02T03:04:05Z''"
proof -
  have "fst (run_roop_on_single_image stepped_back_env (Request ''u'') demo_options demo_world)
     = Inr \<lparr> RoopResponse.task_id = ''t1'',
             RoopResponse.encoded_image = ''data:image/png;base64,iVBORw=='',
             RoopResponse.start_time = ''2024-01-02T03:04:05Z'',
             RoopResponse.finish_time = ''2024-01-02T03:04:04Z'' \<rparr>"
    by code_simp
  moreover have "''2024-01-02T03:04:04Z'' < ''2024-01-02T03:04:05Z''"
    by code_simp
  ultimately show ?thesis by (rule conjI)
qed

text \<open>
  The events of a whole run of the handler, whichever way it ends: the readings of the
  clock, what the two resolvers do, the opening of the two images, the swap call, the
  creation of the output directory and the saving of the result at the output path.
\<close>

lemma run_events:
  assumes run: "run_roop_on_single_image env request roop_options w = (r, w')"
    and P_now: "P Now"
    and P_open: "\<And>p. P (ImageOpen p)"
    and P_swap: "\<And>m. P (SwapFace m)"
    and P_mkdir: "\<And>d. P (Mkdir d)"
    and P_save: "P (ImageSave (str_path (truediv
                   (private_dir_of env request
                      (''output/'' @ strftime_date (utc_clock env (ticks w))))
                   (RoopOptions.task_id roop_options @ ''.png''))))"
    and P_face: "\<And>w1 r1 w2.
        download_image_if_needed env request (source_image roop_options)
          (''face/'' @ strftime_date (utc_clock env (ticks w)))
          (Some (RoopOptions.task_id roop_options)) w1 = (r1, w2)
        \<Longrightarrow> only_events P w1 w2"
    and P_swapped: "\<And>w1 r1 w2.
        download_image_if_needed env request (RoopOptions.swap_image roop_options)
          (''swap/'' @ strftime_date (utc_clock env (ticks w)))
          (Some (RoopOptions.task_id roop_options)) w1 = (r1, w2)
        \<Longrightarrow> only_events P w1 w2"
  shows "only_events P w w'"
proof -
  let ?id = "RoopOptions.task_id roop_options"
  obtain t w1 where now: "datetime_now env w = (t, w1)" by (rule prod.exhaust)
  from datetime_now_trace [OF now] have t: "t = utc_clock env (ticks w)"
    and tr1: "trace w1 = trace w @ [Now]" by simp_all
  have e1: "only_events P w w1"
    using tr1 P_now by (simp add: only_events_def)
  obtain r1 w2 where r1: "download_image_if_needed env request (source_image roop_options)
             (''face/'' @ strftime_date t) (Some ?id) w1 = (r1, w2)" by (rule prod.exhaust)
  have e2: "only_events P w w2"
    by (rule only_events_trans [OF e1 P_face [OF r1 [unfolded t]]])
  show ?thesis
  proof (cases r1)
    case (Inl e)
    with run now r1 have "w' = w2" by (simp add: run_roop_on_single_image_def Let_def)
    with e2 show ?thesis by simp
  next
    case f: (Inr face_image)
    obtain r2 w3 where r2: "download_image_if_needed env request (RoopOptions.swap_image roop_options)
             (''swap/'' @ strftime_date t) (Some ?id) w2 = (r2, w3)" by (rule prod.exhaust)
    have e3: "only_events P w w3"
      by (rule only_events_trans [OF e2 P_swapped [OF r2 [unfolded t]]])
    show ?thesis
    proof (cases r2)
      case (Inl e)
      with run now r1 f r2 have "w' = w3" by (simp add: run_roop_on_single_image_def Let_def)
      with e3 show ?thesis by simp
    next
      case s: (Inr swap_path)
      obtain r3 w4 where r3: "Image_open env face_image w3 = (r3, w4)" by (rule prod.exhaust)
      have e4: "only_events P w w4"
        by (rule only_events_log [OF e3 P_open Image_open_trace [OF r3]])
      show ?thesis
      proof (cases r3)
        case (Inl e)
        with run now r1 f r2 s r3 have "w' = w4" by (simp add: run_roop_on_single_image_def Let_def)
        with e4 show ?thesis by simp
      next
        case fo: (Inr face)
        obtain r4 w5 where r4: "Image_open env swap_path w4 = (r4, w5)" by (rule prod.exhaust)
        have e5: "only_events P w w5"
          by (rule only_events_log [OF e4 P_open Image_open_trace [OF r4]])
        show ?thesis
        proof (cases r4)
          case (Inl e)
          with run now r1 f r2 s r3 fo r4 have "w' = w5"
            by (simp add: run_roop_on_single_image_def Let_def)
          with e5 show ?thesis by simp
        next
          case so: (Inr target)
          obtain r5 w6 where r5: "call_swap_face env face target (model roop_options)
              {face_index roop_options} (upscale_options env roop_options) w5 = (r5, w6)"
            by (rule prod.exhaust)
          have e6: "only_events P w w6"
            by (rule only_events_log [OF e5 P_swap call_swap_face_trace [OF r5, THEN conjunct1]])
          show ?thesis
          proof (cases r5)
            case (Inl e)
            with run now r1 f r2 s r3 fo r4 so r5 have "w' = w6"
              by (simp add: run_roop_on_single_image_def Let_def)
            with e6 show ?thesis by simp
          next
            case res: (Inr result)
            show ?thesis
            proof (cases "image result")
              case None
              with run now r1 f r2 s r3 fo r4 so r5 res have "w' = w6"
                by (simp add: run_roop_on_single_image_def Let_def)
              with e6 show ?thesis by simp
            next
              case img: (Some result_image)
              obtain r6 w7 where r6: "get_private_path env request (''output/'' @ strftime_date t)
                  (?id @ ''.png'') w6 = (r6, w7)" by (rule prod.exhaust)
              have e7: "only_events P w w7"
                by (rule only_events_trans [OF e6 get_private_path_events [OF r6, of P, OF P_mkdir]])
              show ?thesis
              proof (cases r6)
                case (Inl e)
                with run now r1 f r2 s r3 fo r4 so r5 res img r6 have "w' = w7"
                  by (simp add: run_roop_on_single_image_def Let_def)
                with e7 show ?thesis by simp
              next
                case out: (Inr output_filepath)
                from get_private_path_result [OF r6 [unfolded out]] t
                have o: "output_filepath = truediv
                   (private_dir_of env request
                      (''output/'' @ strftime_date (utc_clock env (ticks w))))
                   (?id @ ''.png'')" by simp
                obtain r7 w8 where r7: "Image_save env result_image (str_path output_filepath) w7
                    = (r7, w8)" by (rule prod.exhaust)
                then have tr8: "trace w8 = trace w7 @ [ImageSave (str_path output_filepath)]"
                  by (auto simp: Image_save_def Let_def split: if_splits)
                have e8: "only_events P w w8"
                  by (rule only_events_log [OF e7 P_save tr8 [unfolded o]])
                show ?thesis
                proof (cases r7)
                  case (Inl e)
                  with run now r1 f r2 s r3 fo r4 so r5 res img r6 out r7 have "w' = w8"
                    by (simp add: run_roop_on_single_image_def Let_def)
                  with e8 show ?thesis by simp
                next
                  case (Inr u)
                  obtain t' w9 where fin: "datetime_now env w8 = (t', w9)" by (rule prod.exhaust)
                  with run now r1 f r2 s r3 fo r4 so r5 res img r6 out r7 Inr have "w' = w9"
                    by (simp add: run_roop_on_single_image_def Let_def)
                  with only_events_log [OF e8 P_now datetime_now_trace [OF fin, THEN conjunct1]]
                  show ?thesis by simp
                qed
              qed
            qed
          qed
        qed
      qed
    qed
  qed
qed

lemma request_writes_keyed:
  assumes plain: "plain_name (RoopOptions.task_id roop_options)"
    and p: "p \<in> set (request_writes env request roop_options w)"
  shows "stem (file_name p) = RoopOptions.task_id roop_options
       \<and> dir_name p \<in> set (request_folders env request w)"
proof -
  let ?tid = "RoopOptions.task_id roop_options"
  let ?D = "strftime_date (utc_clock env (ticks w))"
  let ?fs = "request_folders env request w"
  let ?O = "str_path (private_dir_of env request (''output/'' @ ?D))"
  obtain r w' where run: "run_roop_on_single_image env request roop_options w = (r, w')"
    by (rule prod.exhaust)
  have out: "str_path (truediv (private_dir_of env request (''output/'' @ ?D)) (?tid @ ''.png''))
           = ?O @ CHR ''/'' # ?tid @ ''.png''"
    by (rule output_path_plain [OF plain source_folder_anchor(3)])
  have O: "?O \<in> set ?fs" by (simp add: request_folders_def Let_def)
  have ev: "only_events (keyed ?tid ?fs) w w'"
  proof (rule run_events [OF run])
    show "keyed ?tid ?fs Now" by (simp add: keyed_def)
    show "keyed ?tid ?fs (ImageOpen q)" for q by (simp add: keyed_def)
    show "keyed ?tid ?fs (SwapFace m)" for m by (simp add: keyed_def)
    show "keyed ?tid ?fs (Mkdir d)" for d by (simp add: keyed_def)
    show "keyed ?tid ?fs (ImageSave (str_path (truediv
            (private_dir_of env request (''output/'' @ ?D)) (?tid @ ''.png''))))"
      unfolding out using output_path_keyed [OF plain, of ?O] O by (simp add: keyed_def)
    show "only_events (keyed ?tid ?fs) w1 w2"
      if "download_image_if_needed env request (source_image roop_options)
            (''face/'' @ ?D) (Some ?tid) w1 = (r1, w2)" for w1 r1 w2
      by (rule resolver_writes_plain [OF that plain source_folder_anchor(1)])
         (simp add: request_folders_def Let_def)
    show "only_events (keyed ?tid ?fs) w1 w2"
      if "download_image_if_needed env request (RoopOptions.swap_image roop_options)
            (''swap/'' @ ?D) (Some ?tid) w1 = (r1, w2)" for w1 r1 w2
      by (rule resolver_writes_plain [OF that plain source_folder_anchor(2)])
         (simp add: request_folders_def Let_def)
  qed
  from p run obtain e where e: "e \<in> set (effects w w')" and pe: "p \<in> set (written e)"
    by (auto simp: request_writes_def written_paths_def)
  from only_events_effects [OF ev] e have "keyed ?tid ?fs e" by blast
  with pe show ?thesis by (auto simp: keyed_def)
qed

text \<open>
  C9, as the code has it, for task ids that are plain names (not empty, without slash or
  dot). Every path that a request writes, whichever way the request ends, has the task id
  as the stem of its file name, and its directory is one of the three folders of the
  request: that of the face images, of the swap images or of the outputs, under the date
  of the first reading of the clock; and these three folders are different. Hence two
  requests with different plain task ids write no path in common, whoever the callers
  are and in whichever worlds and on whichever dates the requests start.
\<close>

theorem plain_task_ids_never_collide:
  assumes plain1: "plain_name (RoopOptions.task_id options1)"
    and plain2: "plain_name (RoopOptions.task_id options2)"
    and distinct_ids: "RoopOptions.task_id options1 \<noteq> RoopOptions.task_id options2"
  shows "set (request_writes env request1 options1 w1)
           \<inter> set (request_writes env request2 options2 w2) = {}
       \<and> (\<forall>p \<in> set (request_writes env request1 options1 w1).
             stem (file_name p) = RoopOptions.task_id options1
             \<and> dir_name p \<in> set (request_folders env request1 w1))
       \<and> (\<forall>p \<in> set (request_writes env request2 options2 w2).
             stem (file_name p) = RoopOptions.task_id options2
             \<and> dir_name p \<in> set (request_folders env request2 w2))
       \<and> distinct (request_folders env request1 w1)
       \<and> distinct (request_folders env request2 w2)"
proof -
  have k1: "\<forall>p \<in> set (request_writes env request1 options1 w1).
             stem (file_name p) = RoopOptions.task_id options1
             \<and> dir_name p \<in> set (request_folders env request1 w1)"
    using request_writes_keyed [OF plain1] by blast
  have k2: "\<forall>p \<in> set (request_writes env request2 options2 w2).
             stem (file_name p) = RoopOptions.task_id options2
             \<and> dir_name p \<in> set (request_folders env request2 w2)"
    using request_writes_keyed [OF plain2] by blast
  have d: "set (request_writes env request1 options1 w1)
           \<inter> set (request_writes env request2 options2 w2) = {}"
  proof (rule ccontr)
    assume "set (request_writes env request1 options1 w1)
           \<inter> set (request_writes env request2 options2 w2) \<noteq> {}"
    then obtain p where a: "p \<in> set (request_writes env request1 options1 w1)"
      and b: "p \<in> set (request_writes env request2 options2 w2)" by blast
    from k1 a have "stem (file_name p) = RoopOptions.task_id options1" by blast
    moreover from k2 b have "stem (file_name p) = RoopOptions.task_id options2" by blast
    ultimately show False using distinct_ids by simp
  qed
  show ?thesis
    by (rule conjI [OF d conjI [OF k1 conjI [OF k2
          conjI [OF request_folders_distinct request_folders_distinct]]]])
qed

text \<open>
  The same at the requests \<open>t1\<close> and \<open>a\<close> of the concrete environment, with the
  paths that each of them writes.
\<close>

theorem plain_task_ids_never_collide_witness:
  "plain_name (RoopOptions.task_id demo_options) \<and> plain_name (RoopOptions.task_id request_a)
   \<and> request_writes demo_env (Request ''u'') demo_options demo_world
       = [''/data/u/roop/source/face/2024-01-02/t1.png'',
          ''/data/u/roop/source/swap/2024-01-02/t1'',
          ''/data/u/roop/source/swap/2024-01-02/t1.png'',
          ''/data/u/roop/output/2024-01-02/t1.png'']
   \<and> request_writes demo_env (Request ''u'') request_a demo_world
       = [''/data/u/roop/source/face/2024-01-02/a.png'',
          ''/data/u/roop/source/swap/2024-01-02/a'',
          ''/data/u/roop/source/swap/2024-01-02/a.png'',
          ''/data/u/roop/output/2024-01-02/a.png'']
   \<and> set (request_writes demo_env (Request ''u'') demo_options demo_world)
         \<inter> set (request_writes demo_env (Request ''u'') request_a demo_world) = {}"
proof -
  have p1: "plain_name (RoopOptions.task_id demo_options)"
    by (simp add: plain_name_def demo_options_def)
  have p2: "plain_name (RoopOptions.task_id request_a)"
    by (simp add: plain_name_def request_a_def)
  have ne: "RoopOptions.task_id demo_options \<noteq> RoopOptions.task_id request_a"
    by (simp add: demo_options_def request_a_def)
  have w1: "request_writes demo_env (Request ''u'') demo_options demo_world
       = [''/data/u/roop/source/face/2024-01-02/t1.png'',
          ''/data/u/roop/source/swap/2024-01-02/t1'',
          ''/data/u/roop/source/swap/2024-01-02/t1.png'',
          ''/data/u/roop/output/2024-01-02/t1.png'']"
    by code_simp
  have w2: "request_writes demo_env (Request ''u'') request_a demo_world
       = [''/data/u/roop/source/face/2024-01-02/a.png'',
          ''/data/u/roop/source/swap/2024-01-02/a'',
          ''/data/u/roop/source/swap/2024-01-02/a.png'',
          ''/data/u/roop/output/2024-01-02/a.png'']"
    by code_simp
  note d = plain_task_ids_never_collide [OF p1 p2 ne, of demo_env "Request ''u''" demo_world
      "Request ''u''" demo_world, THEN conjunct1]
  show ?thesis by (rule conjI [OF p1 conjI [OF p2 conjI [OF w1 conjI [OF w2 d]]]])
qed

text \<open>
  C9, as the specification states it, fails when a task id carries an extension. The task
  ids \<open>a\<close> and \<open>a.png\<close> are different, and yet the request \<open>a\<close>, whose inline face
  image is a PNG, and the request \<open>a.png\<close>, which downloads a PNG as its face image,
  both write \<open>source/face/2024-01-02/a.png\<close>.
\<close>

theorem dotted_task_id_counterexample:
  "RoopOptions.task_id request_a \<noteq> RoopOptions.task_id request_a_png
   \<and> ''/data/u/roop/source/face/2024-01-02/a.png''
       \<in> set (request_writes demo_env (Request ''u'') request_a demo_world)
   \<and> ''/data/u/roop/source/face/2024-01-02/a.png''
       \<in> set (request_writes demo_env (Request ''u'') request_a_png demo_world)"
proof -
  have a: "RoopOptions.task_id request_a \<noteq> RoopOptions.task_id request_a_png"
    by (simp add: request_a_def request_a_png_def)
  have b: "''/data/u/roop/source/face/2024-01-02/a.png''
       \<in> set (request_writes demo_env (Request ''u'') request_a demo_world)"
    by code_simp
  have c: "''/data/u/roop/source/face/2024-01-02/a.png''
       \<in> set (request_writes demo_env (Request ''u'') request_a_png demo_world)"
    by code_simp
  show ?thesis by (rule conjI [OF a conjI [OF b c]])
qed

end
